theory Spec2Isabelle
  imports Complex_Main "HOL-Library.Multiset" "HOL-Library.Log_Nat"
begin

section \<open>Domain model\<close>

text \<open>
  Shallow embedding of the deployment-lifecycle core of the orchestrator:
  \<^verbatim>\<open>domain/models/{base,cloud_provider,deployment,task,drift}.py\<close>,
  \<^verbatim>\<open>domain/services/{deployment_service,drift_service}.py\<close>,
  \<^verbatim>\<open>infrastructure/ai/planning_engine.py\<close> and the in-memory repositories.

  Conventions.
  \<^item> A pydantic class is a record; where two classes share a field name the field
    carries a short prefix (\<open>rs_\<close> ResourceSpec, \<open>step_\<close> ExecutionStep, \<open>sr_\<close> StepResult,
    \<open>dep_\<close> Deployment, \<open>task_\<close> Task, \<open>rep_\<close> DriftReport).
  \<^item> A Python method mutates \<open>self\<close> and may raise. It is a function from the
    object to a pair \<open>(raised, object)\<close>: \<open>raised\<close> is \<open>None\<close> on a normal return and
    \<open>Some e\<close> when \<open>e\<close> was raised, and the object is returned as the method left
    it at that moment, so that a partial mutation before a raise stays visible.
  \<^item> Python integers are \<open>int\<close>.
  \<^item> \<open>generate_id\<close> (uuid4) is a supply \<open>gen :: nat \<Rightarrow> string\<close> handed to whatever
    constructs objects; uniqueness of generated ids is the hypothesis \<open>inj gen\<close>.
  \<^item> The wall clock is not modelled: \<open>created_at\<close>, \<open>updated_at\<close>, \<open>started_at\<close>,
    \<open>completed_at\<close>, \<open>occurred_at\<close> are left out, and \<open>touch\<close> is its version increment.
  \<^item> A \<open>dict[str, Any]\<close> is an insertion-ordered association list of \<open>pyvalue\<close>s.
  \<^item> The float field \<open>StepResult.duration_seconds\<close>, which no operation of the
    core reads or writes, is left out.
\<close>

datatype pyvalue =
    PyNone
  | PyBool bool
  | PyInt int
  | PyStr string
  | PyList "pyvalue list"
  | PyDict "(string \<times> pyvalue) list"

type_synonym pydict = "(string \<times> pyvalue) list"

text \<open>\<open>d[k] = v\<close> on a Python dict: replace in place when the key exists, append otherwise.\<close>

fun dict_set :: "'k \<Rightarrow> 'v \<Rightarrow> ('k \<times> 'v) list \<Rightarrow> ('k \<times> 'v) list" where
  "dict_set k v [] = [(k, v)]"
| "dict_set k v ((k', v') # kvs) =
     (if k' = k then (k, v) # kvs else (k', v') # dict_set k v kvs)"

text \<open>\<open>d.get(k)\<close>.\<close>

definition dict_get :: "('k \<times> 'v) list \<Rightarrow> 'k \<Rightarrow> 'v option" where
  "dict_get kvs k = map_of kvs k"

text \<open>\<open>d.values()\<close>.\<close>

definition dict_values :: "('k \<times> 'v) list \<Rightarrow> 'v list" where
  "dict_values kvs = map snd kvs"

datatype error =
    InvalidStateTransitionError
  | InvalidTaskTransitionError
  | MaxRetriesExceededError
  | DeploymentNotFoundError
  | DeploymentPlanMissingError
  | DeploymentLockError
  | DriftScanError

text \<open>Sequencing of two method calls on the same object: a raise stops the sequence.\<close>

definition and_then :: "error option \<times> 's \<Rightarrow> ('s \<Rightarrow> error option \<times> 's) \<Rightarrow> error option \<times> 's" where
  "and_then r f = (case r of (Some e, s) \<Rightarrow> (Some e, s) | (None, s) \<Rightarrow> f s)"

subsection \<open>cloud\_provider.py\<close>

datatype CloudProviderType = AWS | AZURE | GCP

fun provider_value :: "CloudProviderType \<Rightarrow> string" where
  "provider_value AWS = ''aws''"
| "provider_value AZURE = ''azure''"
| "provider_value GCP = ''gcp''"

datatype ResourceType =
    COMPUTE | STORAGE | DATABASE | NETWORK | CONTAINER | SERVERLESS
  | LOAD_BALANCER | DNS | CDN | QUEUE | CACHE

fun resource_type_value :: "ResourceType \<Rightarrow> string" where
  "resource_type_value COMPUTE = ''compute''"
| "resource_type_value STORAGE = ''storage''"
| "resource_type_value DATABASE = ''database''"
| "resource_type_value NETWORK = ''network''"
| "resource_type_value CONTAINER = ''container''"
| "resource_type_value SERVERLESS = ''serverless''"
| "resource_type_value LOAD_BALANCER = ''load_balancer''"
| "resource_type_value DNS = ''dns''"
| "resource_type_value CDN = ''cdn''"
| "resource_type_value QUEUE = ''queue''"
| "resource_type_value CACHE = ''cache''"

record ResourceSpec =
  resource_type :: ResourceType
  rs_provider :: CloudProviderType
  region :: string
  rs_name :: string
  properties :: pydict
  tags :: "(string \<times> string) list"
  rs_dependencies :: "string list"

definition resource_identifier :: "ResourceSpec \<Rightarrow> string" where
  "resource_identifier r =
     provider_value (rs_provider r) @ ''/'' @ region r @ ''/'' @
     resource_type_value (resource_type r) @ ''/'' @ rs_name r"

text \<open>\<open>ResourceSpec.model_dump()\<close>.\<close>

definition resource_spec_dump :: "ResourceSpec \<Rightarrow> pyvalue" where
  "resource_spec_dump r = PyDict
     [(''resource_type'', PyStr (resource_type_value (resource_type r))),
      (''provider'', PyStr (provider_value (rs_provider r))),
      (''region'', PyStr (region r)),
      (''name'', PyStr (rs_name r)),
      (''properties'', PyDict (properties r)),
      (''tags'', PyDict (map (\<lambda>(k, v). (k, PyStr v)) (tags r))),
      (''dependencies'', PyList (map PyStr (rs_dependencies r)))]"

subsection \<open>deployment.py: values\<close>

datatype DeploymentStatus =
    PENDING | PLANNING | PLANNED | AWAITING_APPROVAL | APPROVED | EXECUTING
  | VERIFYING | COMPLETED | FAILED | ROLLING_BACK | ROLLED_BACK | CANCELLED

datatype DeploymentStrategy = ROLLING | BLUE_GREEN | CANARY | RECREATE

fun strategy_value :: "DeploymentStrategy \<Rightarrow> string" where
  "strategy_value ROLLING = ''rolling''"
| "strategy_value BLUE_GREEN = ''blue_green''"
| "strategy_value CANARY = ''canary''"
| "strategy_value RECREATE = ''recreate''"

fun VALID_TRANSITIONS :: "DeploymentStatus \<Rightarrow> DeploymentStatus set" where
  "VALID_TRANSITIONS PENDING = {PLANNING, CANCELLED}"
| "VALID_TRANSITIONS PLANNING = {PLANNED, FAILED}"
| "VALID_TRANSITIONS PLANNED = {AWAITING_APPROVAL, APPROVED, EXECUTING, CANCELLED}"
| "VALID_TRANSITIONS AWAITING_APPROVAL = {APPROVED, CANCELLED}"
| "VALID_TRANSITIONS APPROVED = {EXECUTING, CANCELLED}"
| "VALID_TRANSITIONS EXECUTING = {VERIFYING, FAILED, ROLLING_BACK}"
| "VALID_TRANSITIONS VERIFYING = {COMPLETED, FAILED, ROLLING_BACK}"
| "VALID_TRANSITIONS COMPLETED = {}"
| "VALID_TRANSITIONS FAILED = {ROLLING_BACK, PENDING}"
| "VALID_TRANSITIONS ROLLING_BACK = {ROLLED_BACK, FAILED}"
| "VALID_TRANSITIONS ROLLED_BACK = {PENDING}"
| "VALID_TRANSITIONS CANCELLED = {}"

record DeploymentIntent =
  description :: string
  target_providers :: "CloudProviderType list"
  target_regions :: "string list"
  resources :: "ResourceSpec list"
  strategy :: DeploymentStrategy
  auto_approve :: bool
  rollback_on_failure :: bool
  environment :: string
  parameters :: pydict

record ExecutionStep =
  step_id :: string
  step_name :: string
  step_description :: string
  step_provider :: CloudProviderType
  resource_spec :: ResourceSpec
  step_terraform_action :: string
  dependencies :: "string list"
  estimated_duration_seconds :: int
  step_idempotency_key :: string
  retry_count :: int
  max_retries :: int

record ExecutionPlan =
  plan_id :: string
  steps :: "ExecutionStep list"
  estimated_total_duration_seconds :: int
  risk_assessment :: string
  reasoning :: string
  terraform_plan_output :: string

definition step_count :: "ExecutionPlan \<Rightarrow> int" where
  "step_count p = int (length (steps p))"

record StepResult =
  sr_step_id :: string
  success :: bool
  sr_output :: string
  sr_error_message :: string
  resource_ids :: "(string \<times> string) list"
  sr_idempotency_key :: string
  sr_attempt_number :: int

subsection \<open>deployment\_events.py\<close>

text \<open>
  The events a deployment emits, with the fields the aggregate sets
  (\<open>deployment_id\<close>, the event's own fields, \<open>correlation_id\<close> last).
\<close>

datatype DomainEvent =
    DeploymentPlanGenerated string string int string
  | DeploymentApproved string string string
  | DeploymentStarted string string
  | DeploymentCompleted string string
  | DeploymentFailed string string string
  | DeploymentRollbackStarted string string
  | DeploymentRollbackCompleted string string

fun event_type :: "DomainEvent \<Rightarrow> string" where
  "event_type (DeploymentPlanGenerated _ _ _ _) = ''deployment.plan_generated''"
| "event_type (DeploymentApproved _ _ _) = ''deployment.approved''"
| "event_type (DeploymentStarted _ _) = ''deployment.started''"
| "event_type (DeploymentCompleted _ _) = ''deployment.completed''"
| "event_type (DeploymentFailed _ _ _) = ''deployment.failed''"
| "event_type (DeploymentRollbackStarted _ _) = ''deployment.rollback_started''"
| "event_type (DeploymentRollbackCompleted _ _) = ''deployment.rollback_completed''"

text \<open>\<open>event.model_dump()\<close>, without the generated \<open>event_id\<close> and \<open>occurred_at\<close>.\<close>

fun event_dump :: "DomainEvent \<Rightarrow> pydict" where
  "event_dump (DeploymentPlanGenerated d p n c) =
     [(''event_type'', PyStr ''deployment.plan_generated''), (''correlation_id'', PyStr c),
      (''metadata'', PyDict []), (''deployment_id'', PyStr d), (''plan_id'', PyStr p),
      (''step_count'', PyInt n)]"
| "event_dump (DeploymentApproved d a c) =
     [(''event_type'', PyStr ''deployment.approved''), (''correlation_id'', PyStr c),
      (''metadata'', PyDict []), (''deployment_id'', PyStr d), (''approved_by'', PyStr a)]"
| "event_dump (DeploymentStarted d c) =
     [(''event_type'', PyStr ''deployment.started''), (''correlation_id'', PyStr c),
      (''metadata'', PyDict []), (''deployment_id'', PyStr d)]"
| "event_dump (DeploymentCompleted d c) =
     [(''event_type'', PyStr ''deployment.completed''), (''correlation_id'', PyStr c),
      (''metadata'', PyDict []), (''deployment_id'', PyStr d)]"
| "event_dump (DeploymentFailed d m c) =
     [(''event_type'', PyStr ''deployment.failed''), (''correlation_id'', PyStr c),
      (''metadata'', PyDict []), (''deployment_id'', PyStr d), (''error_message'', PyStr m)]"
| "event_dump (DeploymentRollbackStarted d c) =
     [(''event_type'', PyStr ''deployment.rollback_started''), (''correlation_id'', PyStr c),
      (''metadata'', PyDict []), (''deployment_id'', PyStr d)]"
| "event_dump (DeploymentRollbackCompleted d c) =
     [(''event_type'', PyStr ''deployment.rollback_completed''), (''correlation_id'', PyStr c),
      (''metadata'', PyDict []), (''deployment_id'', PyStr d)]"

subsection \<open>deployment.py: the Deployment aggregate\<close>

record Deployment =
  dep_id :: string
  dep_version :: int
  dep_name :: string
  intent :: DeploymentIntent
  status :: DeploymentStatus
  plan :: "ExecutionPlan option"
  step_results :: "StepResult list"
  initiated_by :: string
  tenant_id :: string
  error_message :: string
  rollback_deployment_id :: "string option"
  domain_events :: "DomainEvent list"

definition touch :: "Deployment \<Rightarrow> Deployment" where
  "touch d = d\<lparr>dep_version := dep_version d + 1\<rparr>"

definition add_event :: "DomainEvent \<Rightarrow> Deployment \<Rightarrow> Deployment" where
  "add_event e d = d\<lparr>domain_events := domain_events d @ [e]\<rparr>"

definition collect_events :: "Deployment \<Rightarrow> DomainEvent list \<times> Deployment" where
  "collect_events d = (domain_events d, d\<lparr>domain_events := []\<rparr>)"

definition transition_to :: "DeploymentStatus \<Rightarrow> Deployment \<Rightarrow> error option \<times> Deployment" where
  "transition_to new_status d =
     (if new_status \<notin> VALID_TRANSITIONS (status d)
      then (Some InvalidStateTransitionError, d)
      else (None, touch (d\<lparr>status := new_status\<rparr>)))"

definition start_planning :: "Deployment \<Rightarrow> error option \<times> Deployment" where
  "start_planning d = transition_to PLANNING d"

definition approve :: "string \<Rightarrow> Deployment \<Rightarrow> error option \<times> Deployment" where
  "approve approved_by d =
     and_then (transition_to APPROVED d)
       (\<lambda>d. (None, add_event (DeploymentApproved (dep_id d) approved_by (dep_id d)) d))"

definition set_plan :: "ExecutionPlan \<Rightarrow> Deployment \<Rightarrow> error option \<times> Deployment" where
  "set_plan p d =
     and_then (transition_to PLANNED (d\<lparr>plan := Some p\<rparr>))
       (\<lambda>d. let d = add_event
                      (DeploymentPlanGenerated (dep_id d) (plan_id p) (step_count p) (dep_id d)) d
            in if auto_approve (intent d) then approve ''auto'' d
               else transition_to AWAITING_APPROVAL d)"

definition start_execution :: "Deployment \<Rightarrow> error option \<times> Deployment" where
  "start_execution d =
     and_then (transition_to EXECUTING d)
       (\<lambda>d. (None, add_event (DeploymentStarted (dep_id d) (dep_id d)) d))"

definition start_verification :: "Deployment \<Rightarrow> error option \<times> Deployment" where
  "start_verification d = transition_to VERIFYING d"

definition complete :: "Deployment \<Rightarrow> error option \<times> Deployment" where
  "complete d =
     and_then (transition_to COMPLETED d)
       (\<lambda>d. (None, add_event (DeploymentCompleted (dep_id d) (dep_id d)) d))"

definition fail :: "string \<Rightarrow> Deployment \<Rightarrow> error option \<times> Deployment" where
  "fail msg d =
     and_then (transition_to FAILED (d\<lparr>error_message := msg\<rparr>))
       (\<lambda>d. (None, add_event (DeploymentFailed (dep_id d) msg (dep_id d)) d))"

definition start_rollback :: "Deployment \<Rightarrow> error option \<times> Deployment" where
  "start_rollback d =
     and_then (transition_to ROLLING_BACK d)
       (\<lambda>d. (None, add_event (DeploymentRollbackStarted (dep_id d) (dep_id d)) d))"

definition complete_rollback :: "Deployment \<Rightarrow> error option \<times> Deployment" where
  "complete_rollback d =
     and_then (transition_to ROLLED_BACK d)
       (\<lambda>d. (None, add_event (DeploymentRollbackCompleted (dep_id d) (dep_id d)) d))"

definition cancel :: "Deployment \<Rightarrow> error option \<times> Deployment" where
  "cancel d = transition_to CANCELLED d"

text \<open>
  \<open>record_step_result\<close>: the append and the touch come first, without any guard;
  the message of the failure is \<open>f"Step {result.step_id} failed: {result.error_message}"\<close>.
\<close>

definition record_step_result :: "StepResult \<Rightarrow> Deployment \<Rightarrow> error option \<times> Deployment" where
  "record_step_result result d =
     (let d = touch (d\<lparr>step_results := step_results d @ [result]\<rparr>)
      in if \<not> success result \<and> rollback_on_failure (intent d)
         then fail (''Step '' @ sr_step_id result @ '' failed: '' @ sr_error_message result) d
         else (None, d))"

definition is_terminal :: "Deployment \<Rightarrow> bool" where
  "is_terminal d = (status d \<in> {COMPLETED, CANCELLED, ROLLED_BACK})"

subsection \<open>task.py\<close>

datatype TaskStatus =
    T_PENDING | T_QUEUED | T_ACQUIRED | T_RUNNING | T_SUCCEEDED | T_FAILED
  | T_RETRYING | T_CANCELLED | T_TIMED_OUT

fun TASK_VALID_TRANSITIONS :: "TaskStatus \<Rightarrow> TaskStatus set" where
  "TASK_VALID_TRANSITIONS T_PENDING = {T_QUEUED, T_CANCELLED}"
| "TASK_VALID_TRANSITIONS T_QUEUED = {T_ACQUIRED, T_CANCELLED, T_TIMED_OUT}"
| "TASK_VALID_TRANSITIONS T_ACQUIRED = {T_RUNNING, T_CANCELLED}"
| "TASK_VALID_TRANSITIONS T_RUNNING = {T_SUCCEEDED, T_FAILED, T_TIMED_OUT}"
| "TASK_VALID_TRANSITIONS T_SUCCEEDED = {}"
| "TASK_VALID_TRANSITIONS T_FAILED = {T_RETRYING, T_CANCELLED}"
| "TASK_VALID_TRANSITIONS T_RETRYING = {T_QUEUED}"
| "TASK_VALID_TRANSITIONS T_CANCELLED = {}"
| "TASK_VALID_TRANSITIONS T_TIMED_OUT = {T_RETRYING, T_CANCELLED, T_FAILED}"

record Task =
  task_id :: string
  task_version :: int
  deployment_id :: string
  task_step_id :: string
  task_name :: string
  task_description :: string
  task_status :: TaskStatus
  task_provider :: CloudProviderType
  terraform_action :: string
  worker_id :: "string option"
  idempotency_key :: string
  attempt_number :: int
  max_attempts :: int
  timeout_seconds :: int
  input_data :: pydict
  output_data :: pydict
  task_error_message :: string

definition task_touch :: "Task \<Rightarrow> Task" where
  "task_touch t = t\<lparr>task_version := task_version t + 1\<rparr>"

definition task_transition_to :: "TaskStatus \<Rightarrow> Task \<Rightarrow> error option \<times> Task" where
  "task_transition_to new_status t =
     (if new_status \<notin> TASK_VALID_TRANSITIONS (task_status t)
      then (Some InvalidTaskTransitionError, t)
      else (None, task_touch (t\<lparr>task_status := new_status\<rparr>)))"

definition enqueue :: "Task \<Rightarrow> error option \<times> Task" where
  "enqueue t = task_transition_to T_QUEUED t"

definition acquire :: "string \<Rightarrow> Task \<Rightarrow> error option \<times> Task" where
  "acquire w t =
     and_then (task_transition_to T_ACQUIRED t) (\<lambda>t. (None, t\<lparr>worker_id := Some w\<rparr>))"

definition start :: "Task \<Rightarrow> error option \<times> Task" where
  "start t = task_transition_to T_RUNNING t"

text \<open>\<open>if output:\<close> holds for a dict that is neither \<open>None\<close> nor empty.\<close>

definition truthy :: "pydict option \<Rightarrow> bool" where
  "truthy out = (case out of None \<Rightarrow> False | Some kvs \<Rightarrow> kvs \<noteq> [])"

definition succeed :: "pydict option \<Rightarrow> Task \<Rightarrow> error option \<times> Task" where
  "succeed out t =
     task_transition_to T_SUCCEEDED
       (case out of None \<Rightarrow> t
        | Some kvs \<Rightarrow> if kvs \<noteq> [] then t\<lparr>output_data := kvs\<rparr> else t)"

definition task_fail :: "string \<Rightarrow> Task \<Rightarrow> error option \<times> Task" where
  "task_fail msg t = task_transition_to T_FAILED (t\<lparr>task_error_message := msg\<rparr>)"

definition retry :: "Task \<Rightarrow> error option \<times> Task" where
  "retry t =
     (if attempt_number t \<ge> max_attempts t then (Some MaxRetriesExceededError, t)
      else and_then (task_transition_to T_RETRYING t)
             (\<lambda>t. task_transition_to T_QUEUED
                     (t\<lparr>attempt_number := attempt_number t + 1, worker_id := None,
                        task_error_message := ''''\<rparr>)))"

definition timeout :: "Task \<Rightarrow> error option \<times> Task" where
  "timeout t = task_transition_to T_TIMED_OUT t"

definition task_cancel :: "Task \<Rightarrow> error option \<times> Task" where
  "task_cancel t = task_transition_to T_CANCELLED t"

definition task_is_terminal :: "Task \<Rightarrow> bool" where
  "task_is_terminal t = (task_status t \<in> {T_SUCCEEDED, T_CANCELLED})"

definition can_retry :: "Task \<Rightarrow> bool" where
  "can_retry t =
     (task_status t \<in> {T_FAILED, T_TIMED_OUT} \<and> attempt_number t < max_attempts t)"

subsection \<open>drift.py\<close>

datatype DriftSeverity = LOW | MEDIUM | HIGH | CRITICAL

fun severity_value :: "DriftSeverity \<Rightarrow> string" where
  "severity_value LOW = ''low''"
| "severity_value MEDIUM = ''medium''"
| "severity_value HIGH = ''high''"
| "severity_value CRITICAL = ''critical''"

datatype DriftType =
  PROPERTY_CHANGED | RESOURCE_ADDED | RESOURCE_REMOVED | STATE_MISMATCH | TAG_MISMATCH

record DriftItem =
  drift_type :: DriftType
  item_resource_identifier :: string
  property_path :: string
  expected_value :: string
  actual_value :: string
  severity :: DriftSeverity

record DriftReport =
  rep_id :: string
  rep_version :: int
  rep_deployment_id :: string
  scan_type :: string
  items :: "DriftItem list"
  summary :: string
  auto_remediate :: bool
  remediation_deployment_id :: "string option"

definition has_drift :: "DriftReport \<Rightarrow> bool" where
  "has_drift r = (length (items r) > 0)"

text \<open>The \<open>for severity in severity_order\<close> loop of \<open>max_severity\<close>.\<close>

fun first_present :: "DriftSeverity list \<Rightarrow> DriftItem list \<Rightarrow> DriftSeverity" where
  "first_present [] its = LOW"
| "first_present (s # ss) its =
     (if list_ex (\<lambda>item. severity item = s) its then s else first_present ss its)"

definition max_severity :: "DriftReport \<Rightarrow> DriftSeverity" where
  "max_severity r =
     (if items r = [] then LOW else first_present [CRITICAL, HIGH, MEDIUM, LOW] (items r))"

subsection \<open>deployment.py: \<open>progress_percentage\<close>\<close>

text \<open>
  \<open>progress_percentage\<close> computes in Python floats, which are IEEE-754 doubles. A finite
  double is modelled as the rational it denotes, and each arithmetic operation returns the
  exact result rounded to the nearest number with a 53-bit significand, ties to the even
  significand. The exponent range is not bounded in the model: the values of this property
  lie between \<open>2\<^sup>-\<^sup>6\<^sup>3\<close> and \<open>2\<^sup>7\<^sup>0\<close>, far inside the normal range of a double.

  \<open>binade x\<close> is the exponent \<open>e\<close> with \<open>2\<^sup>e \<le> x < 2\<^sup>e\<^sup>+\<^sup>1\<close> of a positive rational.
\<close>

definition round_half_even :: "rat \<Rightarrow> int" where
  "round_half_even x =
     (let f = \<lfloor>x\<rfloor>; r = x - of_int f
      in if r < 1 / 2 then f else if 1 / 2 < r then f + 1 else if even f then f else f + 1)"

definition binade :: "rat \<Rightarrow> int" where
  "binade x =
     (if 1 \<le> x then int (floorlog 2 (nat \<lfloor>x\<rfloor>)) - 1
      else - int (floorlog 2 (nat (\<lceil>1 / x\<rceil> - 1))))"

definition double_round :: "rat \<Rightarrow> rat" where
  "double_round x =
     (if x = 0 then 0
      else let ulp = 2 powi (binade \<bar>x\<bar> - 52)
           in sgn x * of_int (round_half_even (\<bar>x\<bar> / ulp)) * ulp)"

text \<open>\<open>float(n)\<close>, \<open>a / b\<close> on two ints with \<open>b \<noteq> 0\<close> (correctly rounded), and \<open>x * y\<close> on floats.\<close>

definition float_of_int :: "int \<Rightarrow> rat" where
  "float_of_int n = double_round (of_int n)"

definition int_truediv :: "int \<Rightarrow> int \<Rightarrow> rat" where
  "int_truediv a b = double_round (of_int a / of_int b)"

definition float_mul :: "rat \<Rightarrow> rat \<Rightarrow> rat" where
  "float_mul x y = double_round (x * y)"

text \<open>
  The property itself. \<open>not self.plan\<close> holds exactly when the plan is \<open>None\<close> (a pydantic
  model is truthy), \<open>not self.plan.steps\<close> exactly when the list is empty, so the divisor
  is never zero.
\<close>

definition progress_percentage :: "Deployment \<Rightarrow> rat" where
  "progress_percentage d =
     (case plan d of
        None \<Rightarrow> 0
      | Some p \<Rightarrow>
          if steps p = [] then 0
          else float_mul (int_truediv (int (length (step_results d))) (int (length (steps p))))
                 (float_of_int 100))"

section \<open>Repositories, event sink and services\<close>

text \<open>
  The in-memory repositories (\<^verbatim>\<open>in_memory.py\<close>) and the in-memory event publisher: each
  store is a Python dict from id to object, the publisher a list of
  \<open>(event_type, payload)\<close>. The repositories hand out the stored object itself, so a
  method called on an object obtained from \<open>get_by_id\<close> changes the stored object
  at once; \<open>alias_deployment\<close> and \<open>alias_task\<close> write that change to the key the
  object was found under.
\<close>

record World =
  deployment_store :: "(string \<times> Deployment) list"
  task_store :: "(string \<times> Task) list"
  drift_store :: "(string \<times> DriftReport) list"
  published :: "(string \<times> pydict) list"

definition alias_deployment :: "string \<Rightarrow> Deployment \<Rightarrow> World \<Rightarrow> World" where
  "alias_deployment k d w = w\<lparr>deployment_store := dict_set k d (deployment_store w)\<rparr>"

definition alias_task :: "string \<Rightarrow> Task \<Rightarrow> World \<Rightarrow> World" where
  "alias_task k t w = w\<lparr>task_store := dict_set k t (task_store w)\<rparr>"

text \<open>\<open>DeploymentRepository.update\<close> and \<open>TaskRepository.save\<close> / \<open>update\<close>: \<open>_store[x.id] = x\<close>.\<close>

definition deployment_repo_update :: "Deployment \<Rightarrow> World \<Rightarrow> World" where
  "deployment_repo_update d w = alias_deployment (dep_id d) d w"

definition task_repo_save :: "Task \<Rightarrow> World \<Rightarrow> World" where
  "task_repo_save t w = alias_task (task_id t) t w"

definition drift_repo_save :: "DriftReport \<Rightarrow> World \<Rightarrow> World" where
  "drift_repo_save r w = w\<lparr>drift_store := dict_set (rep_id r) r (drift_store w)\<rparr>"

definition list_by_deployment :: "string \<Rightarrow> World \<Rightarrow> Task list" where
  "list_by_deployment did w = filter (\<lambda>t. deployment_id t = did) (dict_values (task_store w))"

definition publish :: "string \<Rightarrow> pydict \<Rightarrow> World \<Rightarrow> World" where
  "publish ty payload w = w\<lparr>published := published w @ [(ty, payload)]\<rparr>"

text \<open>\<open>_publish_events\<close>: collect (which clears the aggregate's buffer) and publish in order.\<close>

definition publish_events :: "Deployment \<Rightarrow> World \<Rightarrow> Deployment \<times> World" where
  "publish_events d w =
     (case collect_events d of
        (evs, d') \<Rightarrow> (d', fold (\<lambda>e. publish (event_type e) (event_dump e)) evs w))"

subsection \<open>deployment\_service.py\<close>

text \<open>The \<open>Task(...)\<close> constructor call of \<open>execute_deployment\<close>, with the class defaults.\<close>

definition new_task :: "string \<Rightarrow> string \<Rightarrow> ExecutionStep \<Rightarrow> Task" where
  "new_task tid did step =
     \<lparr>task_id = tid, task_version = 1, deployment_id = did, task_step_id = step_id step,
      task_name = step_name step, task_description = step_description step,
      task_status = T_PENDING, task_provider = step_provider step,
      terraform_action = step_terraform_action step, worker_id = None,
      idempotency_key = step_idempotency_key step, attempt_number = 1, max_attempts = 3,
      timeout_seconds = estimated_duration_seconds step * 2,
      input_data = [(''resource_spec'', resource_spec_dump (resource_spec step)),
                    (''dependencies'', PyList (map PyStr (dependencies step)))],
      output_data = [], task_error_message = ''''\<rparr>"

text \<open>The \<open>for step in plan.steps\<close> loop; the \<open>n\<close>-th task made takes its id from \<open>gen n\<close>.\<close>

fun create_tasks ::
  "(nat \<Rightarrow> string) \<Rightarrow> nat \<Rightarrow> string \<Rightarrow> ExecutionStep list \<Rightarrow> World \<Rightarrow> (error + Task list) \<times> World"
where
  "create_tasks gen n did [] w = (Inr [], w)"
| "create_tasks gen n did (step # rest) w =
     (case enqueue (new_task (gen n) did step) of
        (Some e, _) \<Rightarrow> (Inl e, w)
      | (None, task) \<Rightarrow>
          (case create_tasks gen (Suc n) did rest (task_repo_save task w) of
             (Inl e, w') \<Rightarrow> (Inl e, w')
           | (Inr tasks, w') \<Rightarrow> (Inr (task # tasks), w')))"

definition execute_deployment ::
  "(nat \<Rightarrow> string) \<Rightarrow> string \<Rightarrow> World \<Rightarrow> (error + Task list) \<times> World"
where
  "execute_deployment gen did w =
     (case dict_get (deployment_store w) did of
        None \<Rightarrow> (Inl DeploymentNotFoundError, w)
      | Some deployment \<Rightarrow>
          (case plan deployment of
             None \<Rightarrow> (Inl DeploymentPlanMissingError, w)
           | Some p \<Rightarrow>
               (case start_execution deployment of
                  (Some e, d) \<Rightarrow> (Inl e, alias_deployment did d w)
                | (None, d) \<Rightarrow>
                    (case create_tasks gen 0 did (steps p)
                            (deployment_repo_update d (alias_deployment did d w)) of
                       (Inl e, w') \<Rightarrow> (Inl e, w')
                     | (Inr tasks, w') \<Rightarrow>
                         (case publish_events d w' of
                            (d', w'') \<Rightarrow>
                              (Inr tasks,
                               alias_deployment (dep_id d') d' (alias_deployment did d' w'')))))))"

text \<open>
  \<open>handle_task_completion\<close>. \<open>py_str\<close> stands for Python's \<open>str\<close> on a dict, whose
  rendering the model does not fix. The result is \<open>None\<close> for a normal return.
\<close>

definition handle_task_completion ::
  "(pydict \<Rightarrow> string) \<Rightarrow> string \<Rightarrow> bool \<Rightarrow> pydict option \<Rightarrow> string \<Rightarrow> World \<Rightarrow> error option \<times> World"
where
  "handle_task_completion py_str tid ok out err w =
     (case dict_get (task_store w) tid of
        None \<Rightarrow> (None, w)
      | Some task0 \<Rightarrow>
          (case (if ok then succeed out task0 else task_fail err task0) of
             (Some e, task) \<Rightarrow> (Some e, alias_task tid task w)
           | (None, task) \<Rightarrow>
               (let w1 = task_repo_save task (alias_task tid task w) in
                case dict_get (deployment_store w1) (deployment_id task) of
                  None \<Rightarrow> (None, w1)
                | Some deployment \<Rightarrow>
                    (let step_result =
                           \<lparr>sr_step_id = task_step_id task, success = ok,
                            sr_output = (if truthy out then py_str (the out) else ''''),
                            sr_error_message = err, resource_ids = [],
                            sr_idempotency_key = idempotency_key task,
                            sr_attempt_number = attempt_number task\<rparr>
                     in case record_step_result step_result deployment of
                          (Some e, d) \<Rightarrow> (Some e, alias_deployment (deployment_id task) d w1)
                        | (None, d) \<Rightarrow>
                            (let all_tasks = list_by_deployment (deployment_id task) w1;
                                 all_complete =
                                   list_all (\<lambda>t. task_is_terminal t \<or> task_status t = T_SUCCEEDED)
                                     all_tasks;
                                 any_failed = list_ex (\<lambda>t. task_status t = T_FAILED) all_tasks
                             in case (if all_complete \<and> \<not> any_failed then start_verification d
                                      else if any_failed \<and> rollback_on_failure (intent d)
                                      then start_rollback d else (None, d)) of
                                  (Some e, d') \<Rightarrow>
                                    (Some e, alias_deployment (deployment_id task) d' w1)
                                | (None, d') \<Rightarrow>
                                    (case publish_events d'
                                            (deployment_repo_update d'
                                               (alias_deployment (deployment_id task) d' w1)) of
                                       (d'', w2) \<Rightarrow>
                                         (None,
                                          alias_deployment (dep_id d'') d''
                                            (alias_deployment (deployment_id task) d'' w2))))))))"

subsection \<open>drift\_service.py\<close>

definition build_expected_state :: "Deployment \<Rightarrow> pydict" where
  "build_expected_state deployment =
     (case plan deployment of
        None \<Rightarrow> []
      | Some p \<Rightarrow>
          fold (\<lambda>step state.
                  dict_set (resource_identifier (resource_spec step))
                    (resource_spec_dump (resource_spec step)) state)
            (steps p) [])"

text \<open>
  \<open>scan_deployment\<close>; the detector port is the parameter \<open>detect_drift\<close>, and what
  \<open>drift_repo.save\<close> returns is the report it was given.
\<close>

definition scan_deployment ::
  "(string \<Rightarrow> pydict \<Rightarrow> DriftReport) \<Rightarrow> string \<Rightarrow> World \<Rightarrow> (error + DriftReport) \<times> World"
where
  "scan_deployment detect_drift did w =
     (case dict_get (deployment_store w) did of
        None \<Rightarrow> (Inl DriftScanError, w)
      | Some deployment \<Rightarrow>
          (let expected_state = build_expected_state deployment;
               report = detect_drift did expected_state;
               w1 = drift_repo_save report w
           in if has_drift report
              then (Inr report,
                    publish ''drift.detected''
                      [(''deployment_id'', PyStr did),
                       (''drift_count'', PyInt (int (length (items report)))),
                       (''max_severity'', PyStr (severity_value (max_severity report)))] w1)
              else (Inr report, w1)))"

section \<open>Planner and wave scheduler\<close>

subsection \<open>deployment.py: \<open>ExecutionPlan.get_execution_order\<close>\<close>

text \<open>
  The \<open>while remaining\<close> loop with its state \<open>(completed, remaining)\<close>; the result is the
  list of waves appended from here on. \<open>list.remove\<close> deletes the first equal element.
\<close>

function execution_waves :: "string set \<Rightarrow> ExecutionStep list \<Rightarrow> ExecutionStep list list" where
  "execution_waves completed [] = []"
| "execution_waves completed (r # rs) =
     (let wave0 = filter (\<lambda>step. list_all (\<lambda>dep. dep \<in> completed) (dependencies step)) (r # rs);
          wave = (if wave0 = [] then [r] else wave0)
      in wave # execution_waves (fold (\<lambda>step. insert (step_id step)) wave completed)
                  (fold remove1 wave (r # rs)))"
  by pat_completeness auto
termination
proof (relation "measure (\<lambda>(completed, remaining). length remaining)")
  show "wf (measure (\<lambda>(completed :: string set, remaining :: ExecutionStep list). length remaining))"
    by simp
next
  fix completed :: "string set" and r :: ExecutionStep and rs wave0 wave
  assume w0: "wave0 = filter (\<lambda>step. list_all (\<lambda>dep. dep \<in> completed) (dependencies step)) (r # rs)"
    and w: "wave = (if wave0 = [] then [r] else wave0)"
  have le: "length (fold remove1 ws xs) \<le> length xs" for ws xs :: "ExecutionStep list"
  proof (induction ws arbitrary: xs)
    case Nil
    show ?case by simp
  next
    case (Cons a ws)
    have "length (fold remove1 ws (remove1 a xs)) \<le> length (remove1 a xs)"
      by (rule Cons.IH)
    also have "\<dots> \<le> length xs"
      by (cases "a \<in> set xs") (simp_all add: length_remove1 remove1_idem)
    finally show ?case by simp
  qed
  obtain a ws where wave: "wave = a # ws" and a: "a \<in> set (r # rs)"
  proof (cases "wave0 = []")
    case True
    with w have "wave = r # []" and "r \<in> set (r # rs)" by simp_all
    then show ?thesis by (rule that)
  next
    case False
    then obtain a ws where aw: "wave0 = a # ws" by (cases wave0) auto
    have "a \<in> set wave0" using aw by simp
    then have "a \<in> set (r # rs)" unfolding w0 by (simp del: filter.simps)
    moreover have "wave = a # ws" using w False aw by simp
    ultimately show ?thesis using that by blast
  qed
  have "length (fold remove1 wave (r # rs)) = length (fold remove1 ws (remove1 a (r # rs)))"
    by (simp add: wave)
  also have "\<dots> \<le> length (remove1 a (r # rs))"
    by (rule le)
  also have "\<dots> < length (r # rs)"
    using a by (simp add: length_remove1 del: remove1.simps)
  finally show "((fold (\<lambda>step. insert (step_id step)) wave completed, fold remove1 wave (r # rs)),
                 (completed, r # rs))
                \<in> measure (\<lambda>(completed, remaining). length remaining)"
    by simp
qed

definition get_execution_order :: "ExecutionPlan \<Rightarrow> ExecutionStep list list" where
  "get_execution_order p = execution_waves {} (steps p)"

subsection \<open>planning\_engine.py\<close>

definition RESOURCE_PRIORITY :: "(ResourceType \<times> int) list" where
  "RESOURCE_PRIORITY =
     [(NETWORK, 1), (DNS, 2), (STORAGE, 3), (DATABASE, 4), (CACHE, 5), (QUEUE, 6),
      (COMPUTE, 7), (CONTAINER, 8), (SERVERLESS, 9), (LOAD_BALANCER, 10), (CDN, 11)]"

text \<open>The sort key \<open>RESOURCE_PRIORITY.get(r.resource_type, 99)\<close>.\<close>

definition priority_key :: "ResourceSpec \<Rightarrow> int" where
  "priority_key r =
     (case dict_get RESOURCE_PRIORITY (resource_type r) of None \<Rightarrow> 99 | Some p \<Rightarrow> p)"

definition estimate_step_duration :: "ResourceSpec \<Rightarrow> int" where
  "estimate_step_duration r =
     (case dict_get
             [(NETWORK, 30), (COMPUTE, 60), (DATABASE, 120), (CONTAINER, 90), (STORAGE, 15),
              (SERVERLESS, 30), (LOAD_BALANCER, 45), (CACHE, 60)] (resource_type r) of
        None \<Rightarrow> 60
      | Some d \<Rightarrow> d)"

text \<open>\<open>str(n)\<close> for a natural number.\<close>

fun str_nat :: "nat \<Rightarrow> string" where
  "str_nat n =
     (if n < 10 then [char_of (48 + n)]
      else str_nat (n div 10) @ [char_of (48 + n mod 10)])"

text \<open>
  One step of \<open>_create_steps_from_resources\<close>: \<open>sid\<close> and \<open>key\<close> are the two generated ids
  of the \<open>ExecutionStep\<close> constructor (\<open>step_id\<close>, \<open>idempotency_key\<close>), the rest its defaults.
\<close>

definition resource_step :: "string \<Rightarrow> string \<Rightarrow> ResourceSpec \<Rightarrow> ExecutionStep" where
  "resource_step sid key resource =
     \<lparr>step_id = sid,
      step_name = ''deploy-'' @ rs_name resource,
      step_description =
        ''Deploy '' @ resource_type_value (resource_type resource) @ '' resource '' @
        [CHR 0x27] @ rs_name resource @ [CHR 0x27] @ '' on '' @
        provider_value (rs_provider resource),
      step_provider = rs_provider resource,
      resource_spec = resource,
      step_terraform_action = ''create'',
      dependencies = [],
      estimated_duration_seconds = estimate_step_duration resource,
      step_idempotency_key = key,
      retry_count = 0,
      max_retries = 3\<rparr>"

text \<open>\<open>sorted\<close> is stable, as \<open>sort_key\<close> is; the \<open>i\<close>-th step made draws \<open>gen (2 i)\<close>, \<open>gen (2 i + 1)\<close>.\<close>

definition create_steps_from_resources :: "(nat \<Rightarrow> string) \<Rightarrow> DeploymentIntent \<Rightarrow> ExecutionStep list" where
  "create_steps_from_resources gen intent' =
     map (\<lambda>(i, resource). resource_step (gen (2 * i)) (gen (2 * i + 1)) resource)
       (enumerate 0 (sort_key priority_key (resources intent')))"

definition default_steps_for ::
  "(nat \<Rightarrow> string) \<Rightarrow> DeploymentIntent \<Rightarrow> nat \<Rightarrow> CloudProviderType \<Rightarrow> ExecutionStep list"
where
  "default_steps_for gen intent' j provider =
     (let region = (case target_regions intent' of [] \<Rightarrow> ''us-east-1'' | r # _ \<Rightarrow> r);
          network_spec =
            \<lparr>resource_type = NETWORK, rs_provider = provider, region = region,
             rs_name = environment intent' @ ''-vpc'',
             properties = [(''cidr_block'', PyStr ''10.0.0.0/16'')],
             tags = [(''environment'', environment intent')],
             rs_dependencies = []\<rparr>;
          network_step =
            \<lparr>step_id = gen (4 * j),
             step_name = ''create-network-'' @ provider_value provider,
             step_description = ''Create VPC/VNet on '' @ provider_value provider,
             step_provider = provider, resource_spec = network_spec,
             step_terraform_action = ''create'', dependencies = [],
             estimated_duration_seconds = 30, step_idempotency_key = gen (4 * j + 1),
             retry_count = 0, max_retries = 3\<rparr>;
          compute_spec =
            \<lparr>resource_type = COMPUTE, rs_provider = provider, region = region,
             rs_name = environment intent' @ ''-app'',
             properties = [(''instance_type'', PyStr ''t3.medium'')],
             tags = [(''environment'', environment intent')],
             rs_dependencies = [resource_identifier network_spec]\<rparr>;
          compute_step =
            \<lparr>step_id = gen (4 * j + 2),
             step_name = ''create-compute-'' @ provider_value provider,
             step_description = ''Create compute instance on '' @ provider_value provider,
             step_provider = provider, resource_spec = compute_spec,
             step_terraform_action = ''create'', dependencies = [step_id network_step],
             estimated_duration_seconds = 60, step_idempotency_key = gen (4 * j + 3),
             retry_count = 0, max_retries = 3\<rparr>
      in [network_step, compute_step])"

definition create_default_steps :: "(nat \<Rightarrow> string) \<Rightarrow> DeploymentIntent \<Rightarrow> ExecutionStep list" where
  "create_default_steps gen intent' =
     concat (map (\<lambda>(j, provider). default_steps_for gen intent' j provider)
               (enumerate 0 (target_providers intent')))"

text \<open>The inner \<open>for dep_resource in step.resource_spec.dependencies\<close> loop.\<close>

fun resolve_loop ::
  "(string \<times> string) list \<Rightarrow> string list \<Rightarrow> string list \<times> bool \<Rightarrow> string list \<times> bool"
where
  "resolve_loop resource_to_step [] (new_deps, changed) = (new_deps, changed)"
| "resolve_loop resource_to_step (dep_resource # rest) (new_deps, changed) =
     (case dict_get resource_to_step dep_resource of
        None \<Rightarrow> resolve_loop resource_to_step rest (new_deps, changed)
      | Some dep_step_id \<Rightarrow>
          if dep_step_id \<noteq> [] \<and> dep_step_id \<notin> set new_deps
          then resolve_loop resource_to_step rest (new_deps @ [dep_step_id], True)
          else resolve_loop resource_to_step rest (new_deps, changed))"

definition resolve_step :: "(string \<times> string) list \<Rightarrow> ExecutionStep \<Rightarrow> ExecutionStep" where
  "resolve_step resource_to_step step =
     (case resolve_loop resource_to_step (rs_dependencies (resource_spec step))
             (dependencies step, False) of
        (new_deps, changed) \<Rightarrow>
          if changed then step\<lparr>dependencies := new_deps\<rparr> else step)"

definition resolve_dependencies :: "ExecutionStep list \<Rightarrow> ExecutionStep list" where
  "resolve_dependencies steps' =
     (let resource_to_step =
            fold (\<lambda>step m. dict_set (resource_identifier (resource_spec step)) (step_id step) m)
              steps' []
      in map (resolve_step resource_to_step) steps')"

definition assess_risk :: "DeploymentIntent \<Rightarrow> ExecutionStep list \<Rightarrow> string" where
  "assess_risk intent' steps' =
     (if environment intent' = ''production'' then ''high''
      else if length (target_providers intent') > 1 then ''medium''
      else if length steps' > 10 then ''medium''
      else ''low'')"

text \<open>\<open>", ".join(xs)\<close>.\<close>

fun join_comma :: "string list \<Rightarrow> string" where
  "join_comma [] = ''''"
| "join_comma [x] = x"
| "join_comma (x # y # zs) = x @ '', '' @ join_comma (y # zs)"

definition generate_reasoning :: "DeploymentIntent \<Rightarrow> ExecutionStep list \<Rightarrow> string" where
  "generate_reasoning intent' steps' =
     ''Generated '' @ str_nat (length steps') @ '' execution steps for deployment to '' @
     join_comma (map provider_value (target_providers intent')) @ '' using '' @
     strategy_value (strategy intent') @ '' strategy in '' @ environment intent' @
     '' environment. Risk assessment: '' @ assess_risk intent' steps' @ ''.''"

text \<open>
  \<open>generate_plan\<close>. The id supply is read in the order the constructors run: two ids per
  step, then the plan's own id.
\<close>

definition generate_plan :: "(nat \<Rightarrow> string) \<Rightarrow> DeploymentIntent \<Rightarrow> ExecutionPlan" where
  "generate_plan gen intent' =
     (let steps0 = create_steps_from_resources gen intent';
          steps1 = (if steps0 = [] then create_default_steps gen intent' else steps0);
          steps2 = resolve_dependencies steps1
      in \<lparr>plan_id = gen (2 * length steps2),
          steps = steps2,
          estimated_total_duration_seconds = sum_list (map estimated_duration_seconds steps2),
          risk_assessment = assess_risk intent' steps2,
          reasoning = generate_reasoning intent' steps2,
          terraform_plan_output = ''''\<rparr>)"

section \<open>Concrete inputs\<close>

text \<open>An id supply with pairwise distinct, non-empty ids.\<close>

definition gen0 :: "nat \<Rightarrow> string" where
  "gen0 n = replicate (Suc n) (CHR ''u'')"

definition web_spec :: ResourceSpec where
  "web_spec =
     \<lparr>resource_type = COMPUTE, rs_provider = AWS, region = ''us-east-1'', rs_name = ''web'',
      properties = [], tags = [], rs_dependencies = []\<rparr>"

definition vpc_spec :: ResourceSpec where
  "vpc_spec =
     \<lparr>resource_type = NETWORK, rs_provider = AWS, region = ''us-east-1'', rs_name = ''vpc'',
      properties = [], tags = [], rs_dependencies = []\<rparr>"

definition app_spec :: ResourceSpec where
  "app_spec =
     \<lparr>resource_type = COMPUTE, rs_provider = AWS, region = ''us-east-1'', rs_name = ''app'',
      properties = [], tags = [], rs_dependencies = [''aws/us-east-1/network/vpc'']\<rparr>"

definition web_intent :: DeploymentIntent where
  "web_intent =
     \<lparr>description = ''one web server'', target_providers = [AWS],
      target_regions = [''us-east-1''], resources = [web_spec], strategy = ROLLING,
      auto_approve = False, rollback_on_failure = True, environment = ''staging'',
      parameters = []\<rparr>"

text \<open>Scenario S3 of the specification: \<open>app\<close> depends on \<open>vpc\<close>.\<close>

definition chain_intent :: DeploymentIntent where
  "chain_intent = web_intent\<lparr>description := ''app on vpc'', resources := [app_spec, vpc_spec]\<rparr>"

text \<open>The same two resources, with \<open>vpc\<close> declared to depend on \<open>app\<close> as well.\<close>

definition cyclic_intent :: DeploymentIntent where
  "cyclic_intent =
     web_intent\<lparr>description := ''cycle'',
       resources := [app_spec, vpc_spec\<lparr>rs_dependencies := [''aws/us-east-1/compute/app'']\<rparr>]\<rparr>"

definition web_step :: ExecutionStep where
  "web_step = resource_step ''s1'' ''k1'' web_spec"

definition web_plan :: ExecutionPlan where
  "web_plan =
     \<lparr>plan_id = ''p1'', steps = [web_step], estimated_total_duration_seconds = 60,
      risk_assessment = ''low'', reasoning = '''', terraform_plan_output = ''''\<rparr>"

definition pending_deployment :: Deployment where
  "pending_deployment =
     \<lparr>dep_id = ''d1'', dep_version = 1, dep_name = ''deploy-staging-aws'', intent = web_intent,
      status = PENDING, plan = None, step_results = [], initiated_by = ''alice'',
      tenant_id = ''t1'', error_message = '''', rollback_deployment_id = None,
      domain_events = []\<rparr>"

definition web_result :: StepResult where
  "web_result =
     \<lparr>sr_step_id = ''s1'', success = True, sr_output = ''done'', sr_error_message = '''',
      resource_ids = [], sr_idempotency_key = ''k1'', sr_attempt_number = 1\<rparr>"

text \<open>A deployment that ran its one-step plan to completion.\<close>

definition completed_deployment :: Deployment where
  "completed_deployment =
     pending_deployment\<lparr>status := COMPLETED, plan := Some web_plan, step_results := [web_result],
       dep_version := 8\<rparr>"

definition failed_task :: Task where
  "failed_task = (new_task ''t1'' ''d1'' web_step)\<lparr>task_status := T_FAILED,
     worker_id := Some ''worker-1'', task_error_message := ''Error'', task_version := 5\<rparr>"

definition empty_world :: World where
  "empty_world = \<lparr>deployment_store = [], task_store = [], drift_store = [], published = []\<rparr>"

text \<open>A running task of deployment \<open>d1\<close> in a world whose deployment store is empty.\<close>

definition running_task :: Task where
  "running_task = (new_task ''t1'' ''d1'' web_step)\<lparr>task_status := T_RUNNING,
     worker_id := Some ''worker-1'', task_version := 4\<rparr>"

definition orphan_world :: World where
  "orphan_world = empty_world\<lparr>task_store := [(''t1'', running_task)]\<rparr>"

text \<open>The planned, approved deployment \<open>d1\<close> and the same deployment still awaiting approval.\<close>

definition approved_deployment :: Deployment where
  "approved_deployment =
     pending_deployment\<lparr>status := APPROVED, plan := Some web_plan, dep_version := 4\<rparr>"

definition approved_world :: World where
  "approved_world = empty_world\<lparr>deployment_store := [(''d1'', approved_deployment)]\<rparr>"

definition awaiting_world :: World where
  "awaiting_world =
     empty_world\<lparr>deployment_store := [(''d1'', approved_deployment\<lparr>status := AWAITING_APPROVAL\<rparr>)]\<rparr>"

text \<open>Two detectors: one that finds nothing and one that reports a changed property.\<close>

definition quiet_detector :: "string \<Rightarrow> pydict \<Rightarrow> DriftReport" where
  "quiet_detector did expected =
     \<lparr>rep_id = ''r1'', rep_version = 1, rep_deployment_id = did, scan_type = ''scheduled'',
      items = [], summary = '''', auto_remediate = False, remediation_deployment_id = None\<rparr>"

definition noisy_detector :: "string \<Rightarrow> pydict \<Rightarrow> DriftReport" where
  "noisy_detector did expected =
     (quiet_detector did expected)\<lparr>items :=
        [\<lparr>drift_type = PROPERTY_CHANGED,
          item_resource_identifier = ''aws/us-east-1/compute/web'',
          property_path = ''properties.instance_type'', expected_value = ''t3.medium'',
          actual_value = ''t3.large'', severity = HIGH\<rparr>]\<rparr>"

section \<open>Contracts used in the statements\<close>

text \<open>
  The contract of a guarded status transition to \<open>s2\<close>, for a lifecycle call \<open>call\<close> on a
  deployment \<open>d\<close>: the call returns normally exactly when \<open>s2\<close> is allowed from the status
  of \<open>d\<close>, and then the status is \<open>s2\<close>; otherwise it raises
  \<open>InvalidStateTransitionError\<close> and the deployment it leaves behind agrees with \<open>d\<close> on
  everything that \<open>forget\<close> keeps. With \<open>forget\<close> the identity the deployment is
  entirely unchanged.
\<close>

definition guarded_upto ::
  "(Deployment \<Rightarrow> Deployment) \<Rightarrow> DeploymentStatus \<Rightarrow> (Deployment \<Rightarrow> error option \<times> Deployment) \<Rightarrow>
     Deployment \<Rightarrow> bool"
where
  "guarded_upto forget s2 call d =
     (case call d of
        (None, d') \<Rightarrow> s2 \<in> VALID_TRANSITIONS (status d) \<and> status d' = s2
      | (Some e, d') \<Rightarrow>
          s2 \<notin> VALID_TRANSITIONS (status d) \<and> e = InvalidStateTransitionError \<and>
          forget d' = forget d)"

definition guarded_transition ::
  "DeploymentStatus \<Rightarrow> (Deployment \<Rightarrow> error option \<times> Deployment) \<Rightarrow> Deployment \<Rightarrow> bool"
where
  "guarded_transition s2 call d = guarded_upto (\<lambda>d. d) s2 call d"

text \<open>
  The operations of a task, as data, so that "after every operation" can be said of any
  sequence of calls. A raise leaves the task as the raising call left it, and the caller
  goes on with that object.
\<close>

datatype task_op =
    Enqueue | Acquire string | Start | Succeed "pydict option" | TaskFail string
  | Retry | Timeout | TaskCancel

fun apply_task_op :: "task_op \<Rightarrow> Task \<Rightarrow> error option \<times> Task" where
  "apply_task_op Enqueue t = enqueue t"
| "apply_task_op (Acquire w) t = acquire w t"
| "apply_task_op Start t = start t"
| "apply_task_op (Succeed out) t = succeed out t"
| "apply_task_op (TaskFail msg) t = task_fail msg t"
| "apply_task_op Retry t = retry t"
| "apply_task_op Timeout t = timeout t"
| "apply_task_op TaskCancel t = task_cancel t"

fun run_task_ops :: "task_op list \<Rightarrow> Task \<Rightarrow> Task" where
  "run_task_ops [] t = t"
| "run_task_ops (op # ops) t = run_task_ops ops (snd (apply_task_op op t))"

text \<open>
  What the wave claim asks of a list of waves over the steps \<open>xs\<close> of a plan. Every step
  appears in exactly one wave, once: the waves, laid end to end, list each step of \<open>xs\<close>
  once, and no wave is empty. Every dependency of a step in wave \<open>i\<close> is the id of a step
  in a wave \<open>j < i\<close>; \<open>ordered_from c\<close> is the same with a set \<open>c\<close> of ids that count as
  already completed.
\<close>

definition partition_of :: "ExecutionStep list list \<Rightarrow> ExecutionStep list \<Rightarrow> bool" where
  "partition_of waves xs =
     (distinct (concat waves) \<and> set (concat waves) = set xs \<and> [] \<notin> set waves)"

definition ordered_from :: "string set \<Rightarrow> ExecutionStep list list \<Rightarrow> bool" where
  "ordered_from c waves =
     (\<forall>i < length waves. \<forall>s \<in> set (waves ! i). \<forall>d \<in> set (dependencies s).
        d \<in> c \<or> (\<exists>j < i. d \<in> step_id ` set (waves ! j)))"

definition dependencies_in_earlier_waves :: "ExecutionStep list list \<Rightarrow> bool" where
  "dependencies_in_earlier_waves waves = ordered_from {} waves"

text \<open>The dependency edges of a list of steps, from the id depended on to the dependent id.\<close>

definition dependency_edges :: "ExecutionStep list \<Rightarrow> (string \<times> string) set" where
  "dependency_edges xs = {(d, step_id s) | d s. s \<in> set xs \<and> d \<in> set (dependencies s)}"

text \<open>An executable form of \<open>ordered_from\<close>, with the completed ids as a list.\<close>

fun earlier_ok :: "string list \<Rightarrow> ExecutionStep list list \<Rightarrow> bool" where
  "earlier_ok completed [] = True"
| "earlier_ok completed (w # ws) =
     (list_all (\<lambda>s. list_all (\<lambda>d. d \<in> set completed) (dependencies s)) w \<and>
      earlier_ok (completed @ map step_id w) ws)"

section \<open>Verified properties\<close>

subsection \<open>Deployment state machine\<close>

lemma transition_to_eq:
  "transition_to s d =
     (if s \<in> VALID_TRANSITIONS (status d)
      then (None, d\<lparr>status := s, dep_version := dep_version d + 1\<rparr>)
      else (Some InvalidStateTransitionError, d))"
  by (simp add: transition_to_def touch_def)

lemma guarded_plain: "guarded_transition s (transition_to s) d"
  by (simp add: guarded_transition_def guarded_upto_def transition_to_eq)

lemma guarded_event:
  "guarded_transition s (\<lambda>d. and_then (transition_to s d) (\<lambda>d. (None, add_event (ev d) d))) d"
  by (simp add: guarded_transition_def guarded_upto_def transition_to_eq and_then_def add_event_def)

text \<open>
  C1, as the code has it. Each of \<open>start_planning\<close>, \<open>approve\<close>, \<open>start_execution\<close>,
  \<open>start_verification\<close>, \<open>complete\<close>, \<open>start_rollback\<close>, \<open>complete_rollback\<close> and \<open>cancel\<close>
  returns normally exactly when its target status is allowed from the current one, leaves
  the deployment in the target status, and otherwise raises \<open>InvalidStateTransitionError\<close>
  and leaves the deployment entirely unchanged. \<open>fail\<close> does the same for \<open>FAILED\<close>, where
  on a raise every field other than \<open>error_message\<close> is unchanged. \<open>set_plan\<close> returns
  normally exactly when \<open>PLANNED\<close> is allowed from the current status; the status it
  leaves is then \<open>APPROVED\<close> under \<open>auto_approve\<close> and \<open>AWAITING_APPROVAL\<close> otherwise, not
  \<open>PLANNED\<close>; on a raise every field other than \<open>plan\<close> is unchanged.
\<close>

theorem C1_lifecycle_transitions:
  "guarded_transition PLANNING start_planning d \<and>
   guarded_transition APPROVED (approve by) d \<and>
   guarded_transition EXECUTING start_execution d \<and>
   guarded_transition VERIFYING start_verification d \<and>
   guarded_transition COMPLETED complete d \<and>
   guarded_transition ROLLING_BACK start_rollback d \<and>
   guarded_transition ROLLED_BACK complete_rollback d \<and>
   guarded_transition CANCELLED cancel d \<and>
   guarded_upto (\<lambda>d. d\<lparr>error_message := ''''\<rparr>) FAILED (fail msg) d \<and>
   (case set_plan p d of
      (None, d') \<Rightarrow>
        PLANNED \<in> VALID_TRANSITIONS (status d) \<and>
        status d' = (if auto_approve (intent d) then APPROVED else AWAITING_APPROVAL)
    | (Some e, d') \<Rightarrow>
        PLANNED \<notin> VALID_TRANSITIONS (status d) \<and> e = InvalidStateTransitionError \<and>
        d'\<lparr>plan := plan d\<rparr> = d)"
proof -
  have 1: "guarded_transition PLANNING start_planning d"
    using guarded_plain [of PLANNING d] by (simp add: start_planning_def [abs_def])
  have 2: "guarded_transition APPROVED (approve by) d"
    using guarded_event [of APPROVED "\<lambda>d. DeploymentApproved (dep_id d) by (dep_id d)" d]
    by (simp add: approve_def [abs_def])
  have 3: "guarded_transition EXECUTING start_execution d"
    using guarded_event [of EXECUTING "\<lambda>d. DeploymentStarted (dep_id d) (dep_id d)" d]
    by (simp add: start_execution_def [abs_def])
  have 4: "guarded_transition VERIFYING start_verification d"
    using guarded_plain [of VERIFYING d] by (simp add: start_verification_def [abs_def])
  have 5: "guarded_transition COMPLETED complete d"
    using guarded_event [of COMPLETED "\<lambda>d. DeploymentCompleted (dep_id d) (dep_id d)" d]
    by (simp add: complete_def [abs_def])
  have 6: "guarded_transition ROLLING_BACK start_rollback d"
    using guarded_event [of ROLLING_BACK "\<lambda>d. DeploymentRollbackStarted (dep_id d) (dep_id d)" d]
    by (simp add: start_rollback_def [abs_def])
  have 7: "guarded_transition ROLLED_BACK complete_rollback d"
    using guarded_event [of ROLLED_BACK "\<lambda>d. DeploymentRollbackCompleted (dep_id d) (dep_id d)" d]
    by (simp add: complete_rollback_def [abs_def])
  have 8: "guarded_transition CANCELLED cancel d"
    using guarded_plain [of CANCELLED d] by (simp add: cancel_def [abs_def])
  have 9: "guarded_upto (\<lambda>d. d\<lparr>error_message := ''''\<rparr>) FAILED (fail msg) d"
    by (simp add: guarded_upto_def fail_def transition_to_eq and_then_def add_event_def)
  have 10: "(case set_plan p d of
      (None, d') \<Rightarrow>
        PLANNED \<in> VALID_TRANSITIONS (status d) \<and>
        status d' = (if auto_approve (intent d) then APPROVED else AWAITING_APPROVAL)
    | (Some e, d') \<Rightarrow>
        PLANNED \<notin> VALID_TRANSITIONS (status d) \<and> e = InvalidStateTransitionError \<and>
        d'\<lparr>plan := plan d\<rparr> = d)"
    by (simp add: set_plan_def approve_def transition_to_eq and_then_def add_event_def Let_def)
  from 1 2 3 4 5 6 7 8 9 10 show ?thesis by blast
qed

text \<open>
  C1 at concrete deployments: the pending deployment can start planning and cannot start
  executing, and the completed one cannot fail.
\<close>

theorem C1_lifecycle_transitions_witness:
  "fst (start_planning pending_deployment) = None \<and>
   status (snd (start_planning pending_deployment)) = PLANNING \<and>
   start_execution pending_deployment = (Some InvalidStateTransitionError, pending_deployment) \<and>
   fst (fail ''boom'' completed_deployment) = Some InvalidStateTransitionError \<and>
   status (snd (fail ''boom'' completed_deployment)) = COMPLETED"
  using C1_lifecycle_transitions [of pending_deployment "''bob''" "''boom''" web_plan]
    C1_lifecycle_transitions [of completed_deployment "''bob''" "''boom''" web_plan]
  by (simp add: guarded_transition_def guarded_upto_def pending_deployment_def
      completed_deployment_def fail_def start_planning_def start_execution_def transition_to_eq
      and_then_def add_event_def)

text \<open>
  C1 as the claim words it does not hold. \<open>fail\<close> on a completed deployment raises and yet
  has overwritten \<open>error_message\<close>; \<open>set_plan\<close> on a pending deployment raises and yet has
  attached the plan; and \<open>set_plan\<close> on a planning deployment returns normally with a status
  other than \<open>PLANNED\<close>.
\<close>

theorem C1_unchanged_on_failure_counterexample:
  "fail ''boom'' completed_deployment =
     (Some InvalidStateTransitionError, completed_deployment\<lparr>error_message := ''boom''\<rparr>) \<and>
   error_message completed_deployment = '''' \<and>
   \<not> guarded_transition FAILED (fail ''boom'') completed_deployment \<and>
   set_plan web_plan pending_deployment =
     (Some InvalidStateTransitionError, pending_deployment\<lparr>plan := Some web_plan\<rparr>) \<and>
   plan pending_deployment = None \<and>
   \<not> guarded_transition PLANNED (set_plan web_plan) pending_deployment \<and>
   fst (set_plan web_plan (pending_deployment\<lparr>status := PLANNING\<rparr>)) = None \<and>
   status (snd (set_plan web_plan (pending_deployment\<lparr>status := PLANNING\<rparr>))) = AWAITING_APPROVAL \<and>
   \<not> guarded_transition PLANNED (set_plan web_plan) (pending_deployment\<lparr>status := PLANNING\<rparr>)"
  by (simp add: guarded_transition_def guarded_upto_def fail_def set_plan_def transition_to_eq
      and_then_def add_event_def completed_deployment_def pending_deployment_def web_intent_def
      Let_def approve_def)

text \<open>
  C2. On a deployment in status \<open>PLANNING\<close>, \<open>set_plan\<close> records the plan and moves to
  \<open>PLANNED\<close> (the first conjunct is that first step on its own), emits
  \<open>deployment.plan_generated\<close>, and then moves to \<open>APPROVED\<close>, emitting
  \<open>deployment.approved\<close> with \<open>approved_by = "auto"\<close>, when \<open>intent.auto_approve\<close> holds,
  and to \<open>AWAITING_APPROVAL\<close> with no further event otherwise. Whenever \<open>set_plan\<close>
  returns normally, the status is \<open>APPROVED\<close> if and only if \<open>intent.auto_approve\<close>.
\<close>

theorem C2_set_plan:
  "(status d = PLANNING \<longrightarrow>
      transition_to PLANNED (d\<lparr>plan := Some p\<rparr>) =
        (None, d\<lparr>plan := Some p, status := PLANNED, dep_version := dep_version d + 1\<rparr>) \<and>
      set_plan p d =
        (None,
         d\<lparr>plan := Some p,
           status := (if auto_approve (intent d) then APPROVED else AWAITING_APPROVAL),
           dep_version := dep_version d + 2,
           domain_events :=
             domain_events d @
             DeploymentPlanGenerated (dep_id d) (plan_id p) (step_count p) (dep_id d) #
             (if auto_approve (intent d) then [DeploymentApproved (dep_id d) ''auto'' (dep_id d)]
              else [])\<rparr>)) \<and>
   (fst (set_plan p d) = None \<longrightarrow>
      (status (snd (set_plan p d)) = APPROVED \<longleftrightarrow> auto_approve (intent d)))"
  by (simp add: set_plan_def approve_def transition_to_eq and_then_def add_event_def Let_def)

text \<open>C2 on the planning deployment, without and with \<open>auto_approve\<close> (scenario S2).\<close>

theorem C2_set_plan_witness:
  "status (pending_deployment\<lparr>status := PLANNING\<rparr>) = PLANNING \<and>
   fst (set_plan web_plan (pending_deployment\<lparr>status := PLANNING\<rparr>)) = None \<and>
   status (snd (set_plan web_plan (pending_deployment\<lparr>status := PLANNING\<rparr>))) = AWAITING_APPROVAL \<and>
   plan (snd (set_plan web_plan (pending_deployment\<lparr>status := PLANNING\<rparr>))) = Some web_plan \<and>
   domain_events (snd (set_plan web_plan (pending_deployment\<lparr>status := PLANNING\<rparr>))) =
     [DeploymentPlanGenerated ''d1'' ''p1'' 1 ''d1''] \<and>
   status (snd (set_plan web_plan
                  (pending_deployment\<lparr>status := PLANNING, intent := web_intent\<lparr>auto_approve := True\<rparr>\<rparr>)))
     = APPROVED \<and>
   domain_events (snd (set_plan web_plan
                  (pending_deployment\<lparr>status := PLANNING, intent := web_intent\<lparr>auto_approve := True\<rparr>\<rparr>)))
     = [DeploymentPlanGenerated ''d1'' ''p1'' 1 ''d1'', DeploymentApproved ''d1'' ''auto'' ''d1'']"
  using C2_set_plan [of "pending_deployment\<lparr>status := PLANNING\<rparr>" web_plan]
    C2_set_plan [of "pending_deployment\<lparr>status := PLANNING, intent := web_intent\<lparr>auto_approve := True\<rparr>\<rparr>" web_plan]
  by (simp add: pending_deployment_def web_intent_def web_plan_def step_count_def)

subsection \<open>Step results\<close>

text \<open>
  C6, as the code has it. \<open>step_results\<close> is append-only: \<open>record_step_result\<close> appends
  its argument at the end, whatever the status and the plan of the deployment and whether
  or not it then raises, and every other lifecycle call leaves \<open>step_results\<close> as it was.
  There is no bound by the step count of the plan and no guard on a terminal status.
\<close>

theorem C6_step_results_append_only:
  "step_results (snd (record_step_result r d)) = step_results d @ [r] \<and>
   step_results (snd (start_planning d)) = step_results d \<and>
   step_results (snd (set_plan p d)) = step_results d \<and>
   step_results (snd (approve by d)) = step_results d \<and>
   step_results (snd (start_execution d)) = step_results d \<and>
   step_results (snd (start_verification d)) = step_results d \<and>
   step_results (snd (complete d)) = step_results d \<and>
   step_results (snd (fail msg d)) = step_results d \<and>
   step_results (snd (start_rollback d)) = step_results d \<and>
   step_results (snd (complete_rollback d)) = step_results d \<and>
   step_results (snd (cancel d)) = step_results d"
  by (simp add: record_step_result_def start_planning_def set_plan_def approve_def
      start_execution_def start_verification_def complete_def fail_def start_rollback_def
      complete_rollback_def cancel_def transition_to_eq and_then_def add_event_def touch_def
      Let_def)

text \<open>
  C6 as the claim words it does not hold: on the completed deployment, whose one-step
  plan already has its one result, \<open>record_step_result\<close> returns normally and appends a
  second result.
\<close>

theorem C6_bounded_terminal_counterexample:
  "is_terminal completed_deployment \<and>
   plan completed_deployment = Some web_plan \<and>
   length (steps web_plan) = 1 \<and>
   length (step_results completed_deployment) = 1 \<and>
   fst (record_step_result web_result completed_deployment) = None \<and>
   step_results (snd (record_step_result web_result completed_deployment)) =
     [web_result, web_result] \<and>
   length (step_results (snd (record_step_result web_result completed_deployment))) >
     length (steps web_plan)"
  by (simp add: is_terminal_def completed_deployment_def pending_deployment_def web_plan_def
      record_step_result_def web_result_def touch_def Let_def)

subsection \<open>Task retry\<close>

lemma task_transition_to_eq:
  "task_transition_to s t =
     (if s \<in> TASK_VALID_TRANSITIONS (task_status t)
      then (None, t\<lparr>task_status := s, task_version := task_version t + 1\<rparr>)
      else (Some InvalidTaskTransitionError, t))"
  by (simp add: task_transition_to_def task_touch_def)

lemma apply_task_op_attempts:
  assumes "attempt_number t \<le> max_attempts t"
  shows "attempt_number (snd (apply_task_op op t)) \<le> max_attempts (snd (apply_task_op op t))"
  using assms
  by (cases op)
     (auto simp: enqueue_def acquire_def start_def succeed_def task_fail_def retry_def
        timeout_def task_cancel_def task_transition_to_eq and_then_def
        split: option.splits)

lemma run_task_ops_attempts:
  "attempt_number t \<le> max_attempts t \<Longrightarrow>
   attempt_number (run_task_ops ops t) \<le> max_attempts (run_task_ops ops t)"
  by (induction ops arbitrary: t) (simp_all add: apply_task_op_attempts)

text \<open>
  C3. If \<open>attempt_number \<le> max_attempts\<close> holds of a task, it holds after every sequence
  of task operations, and it holds of every task that \<open>execute_deployment\<close> constructs.
  \<open>retry\<close> raises \<open>MaxRetriesExceededError\<close> exactly when
  \<open>attempt_number \<ge> max_attempts\<close>, and then leaves the task unchanged. Otherwise, on a
  task in status \<open>FAILED\<close> or \<open>TIMED_OUT\<close>, it returns normally, increments
  \<open>attempt_number\<close> by one, clears \<open>worker_id\<close> and \<open>error_message\<close>, and leaves the
  task in status \<open>QUEUED\<close>, from which \<open>ACQUIRED\<close> is allowed.
\<close>

theorem C3_retry:
  "(attempt_number t \<le> max_attempts t \<longrightarrow>
      attempt_number (run_task_ops ops t) \<le> max_attempts (run_task_ops ops t)) \<and>
   attempt_number (new_task tid did step) \<le> max_attempts (new_task tid did step) \<and>
   (fst (retry t) = Some MaxRetriesExceededError \<longleftrightarrow> attempt_number t \<ge> max_attempts t) \<and>
   (attempt_number t \<ge> max_attempts t \<longrightarrow> snd (retry t) = t) \<and>
   (attempt_number t < max_attempts t \<and> task_status t \<in> {T_FAILED, T_TIMED_OUT} \<longrightarrow>
      retry t =
        (None,
         t\<lparr>task_status := T_QUEUED, attempt_number := attempt_number t + 1, worker_id := None,
           task_error_message := '''', task_version := task_version t + 2\<rparr>) \<and>
      T_ACQUIRED \<in> TASK_VALID_TRANSITIONS (task_status (snd (retry t))))"
proof -
  have a: "attempt_number t \<le> max_attempts t \<longrightarrow>
      attempt_number (run_task_ops ops t) \<le> max_attempts (run_task_ops ops t)"
    by (simp add: run_task_ops_attempts)
  have b: "attempt_number (new_task tid did step) \<le> max_attempts (new_task tid did step)"
    by (simp add: new_task_def)
  have c: "fst (retry t) = Some MaxRetriesExceededError \<longleftrightarrow> attempt_number t \<ge> max_attempts t"
    by (simp add: retry_def task_transition_to_eq and_then_def)
  have d: "attempt_number t \<ge> max_attempts t \<longrightarrow> snd (retry t) = t"
    by (simp add: retry_def)
  have e: "attempt_number t < max_attempts t \<and> task_status t \<in> {T_FAILED, T_TIMED_OUT} \<longrightarrow>
      retry t =
        (None,
         t\<lparr>task_status := T_QUEUED, attempt_number := attempt_number t + 1, worker_id := None,
           task_error_message := '''', task_version := task_version t + 2\<rparr>) \<and>
      T_ACQUIRED \<in> TASK_VALID_TRANSITIONS (task_status (snd (retry t)))"
    by (auto simp: retry_def task_transition_to_eq and_then_def)
  from a b c d e show ?thesis by blast
qed

text \<open>
  C3 on a task that failed its first attempt: \<open>retry\<close> queues it for attempt 2; the same
  task at attempt 3 of 3 is refused.
\<close>

theorem C3_retry_witness:
  "attempt_number failed_task \<le> max_attempts failed_task \<and>
   attempt_number failed_task < max_attempts failed_task \<and>
   task_status failed_task \<in> {T_FAILED, T_TIMED_OUT} \<and>
   fst (retry failed_task) = None \<and>
   attempt_number (snd (retry failed_task)) = 2 \<and>
   task_status (snd (retry failed_task)) = T_QUEUED \<and>
   worker_id (snd (retry failed_task)) = None \<and>
   task_error_message (snd (retry failed_task)) = [] \<and>
   attempt_number (run_task_ops [Retry, Acquire ''w'', Start, TaskFail ''e'', Retry, Retry] failed_task)
     \<le> max_attempts (run_task_ops [Retry, Acquire ''w'', Start, TaskFail ''e'', Retry, Retry] failed_task) \<and>
   attempt_number (failed_task\<lparr>attempt_number := 3\<rparr>) \<ge> max_attempts (failed_task\<lparr>attempt_number := 3\<rparr>) \<and>
   retry (failed_task\<lparr>attempt_number := 3\<rparr>) =
     (Some MaxRetriesExceededError, failed_task\<lparr>attempt_number := 3\<rparr>)"
proof -
  have h1: "attempt_number failed_task \<le> max_attempts failed_task"
    and h2: "attempt_number failed_task < max_attempts failed_task"
    and h3: "task_status failed_task \<in> {T_FAILED, T_TIMED_OUT}"
    and h4: "attempt_number (failed_task\<lparr>attempt_number := 3\<rparr>) \<ge> max_attempts (failed_task\<lparr>attempt_number := 3\<rparr>)"
    by (simp_all add: failed_task_def new_task_def)
  note c = C3_retry [of failed_task "[Retry, Acquire ''w'', Start, TaskFail ''e'', Retry, Retry]"]
  have r: "retry failed_task =
        (None,
         failed_task\<lparr>task_status := T_QUEUED, attempt_number := attempt_number failed_task + 1,
           worker_id := None, task_error_message := [],
           task_version := task_version failed_task + 2\<rparr>)"
    using c h2 h3 by blast
  have a: "attempt_number (snd (retry failed_task)) = 2"
    unfolding r by (simp add: failed_task_def new_task_def)
  have ops: "attempt_number (run_task_ops [Retry, Acquire ''w'', Start, TaskFail ''e'', Retry, Retry] failed_task)
     \<le> max_attempts (run_task_ops [Retry, Acquire ''w'', Start, TaskFail ''e'', Retry, Retry] failed_task)"
    using c h1 by blast
  have m: "retry (failed_task\<lparr>attempt_number := 3\<rparr>) =
     (Some MaxRetriesExceededError, failed_task\<lparr>attempt_number := 3\<rparr>)"
    using C3_retry [of "failed_task\<lparr>attempt_number := 3\<rparr>" "[]"] h4
    by (metis prod.collapse)
  show ?thesis
    using h1 h2 h3 h4 a ops m by (simp add: r)
qed

subsection \<open>execute\_deployment\<close>

lemma dict_get_dict_set:
  "dict_get (dict_set k v kvs) k' = (if k' = k then Some v else dict_get kvs k')"
  by (induction kvs) (auto simp: dict_get_def)

lemma dict_set_same: "dict_get kvs k = Some v \<Longrightarrow> dict_set k v kvs = kvs"
  by (induction kvs) (auto simp: dict_get_def split: if_splits)

lemma enqueue_new_task:
  "enqueue (new_task tid did step) =
     (None, (new_task tid did step)\<lparr>task_status := T_QUEUED, task_version := 2\<rparr>)"
  by (simp add: enqueue_def task_transition_to_eq new_task_def)

lemma create_tasks_result:
  "fst (create_tasks gen n did sts w) =
     Inr (map (\<lambda>(i, step). (new_task (gen i) did step)\<lparr>task_status := T_QUEUED, task_version := 2\<rparr>)
            (enumerate n sts))"
proof (induction sts arbitrary: n w)
  case Nil
  show ?case by simp
next
  case (Cons a sts)
  let ?t = "(new_task (gen n) did a)\<lparr>task_status := T_QUEUED, task_version := 2\<rparr>"
  let ?rec = "create_tasks gen (Suc n) did sts (task_repo_save ?t w)"
  have "fst ?rec =
     Inr (map (\<lambda>(i, step). (new_task (gen i) did step)\<lparr>task_status := T_QUEUED, task_version := 2\<rparr>)
            (enumerate (Suc n) sts))"
    by (rule Cons.IH)
  then obtain w' where "?rec =
     (Inr (map (\<lambda>(i, step). (new_task (gen i) did step)\<lparr>task_status := T_QUEUED, task_version := 2\<rparr>)
            (enumerate (Suc n) sts)), w')"
    by (cases ?rec) auto
  then show ?case by (simp add: enqueue_new_task)
qed

lemma create_tasks_stores:
  "deployment_store (snd (create_tasks gen n did sts w)) = deployment_store w \<and>
   published (snd (create_tasks gen n did sts w)) = published w"
proof (induction sts arbitrary: n w)
  case Nil
  show ?case by simp
next
  case (Cons a sts)
  let ?t = "(new_task (gen n) did a)\<lparr>task_status := T_QUEUED, task_version := 2\<rparr>"
  let ?w = "task_repo_save ?t w"
  let ?rec = "create_tasks gen (Suc n) did sts ?w"
  have ih: "deployment_store (snd ?rec) = deployment_store ?w \<and> published (snd ?rec) = published ?w"
    by (rule Cons.IH)
  have w: "deployment_store ?w = deployment_store w \<and> published ?w = published w"
    by (simp add: task_repo_save_def alias_task_def)
  obtain r w' where rec: "?rec = (r, w')" by (cases ?rec) auto
  show ?case
    using ih w rec by (cases r) (simp_all add: enqueue_new_task)
qed

lemma publish_fold_stores:
  "deployment_store (fold (\<lambda>e. publish (event_type e) (event_dump e)) evs w) = deployment_store w"
  by (induction evs arbitrary: w) (simp_all add: publish_def)

text \<open>
  C5, as the code has it. \<open>execute_deployment\<close> raises \<open>DeploymentNotFoundError\<close> for an
  unknown id and \<open>DeploymentPlanMissingError\<close> for a stored deployment without a plan,
  in both cases changing nothing. For a stored deployment with a plan it goes through
  \<open>start_execution\<close>: when \<open>EXECUTING\<close> is not allowed from the deployment's status it
  raises \<open>InvalidStateTransitionError\<close>, creates no task and changes nothing; when it is
  allowed (status \<open>PLANNED\<close> or \<open>APPROVED\<close>) the stored deployment ends in status
  \<open>EXECUTING\<close> and the call returns exactly one task per plan step, in plan order, each in
  status \<open>QUEUED\<close>, with \<open>timeout_seconds\<close> twice the step's
  \<open>estimated_duration_seconds\<close> and the step's \<open>idempotency_key\<close> and \<open>step_id\<close>.
\<close>

theorem C5_execute_deployment:
  "(dict_get (deployment_store w) did = None \<longrightarrow>
      execute_deployment gen did w = (Inl DeploymentNotFoundError, w)) \<and>
   (\<forall>d. dict_get (deployment_store w) did = Some d \<and> plan d = None \<longrightarrow>
      execute_deployment gen did w = (Inl DeploymentPlanMissingError, w)) \<and>
   (\<forall>d p. dict_get (deployment_store w) did = Some d \<and> plan d = Some p \<and>
          EXECUTING \<notin> VALID_TRANSITIONS (status d) \<longrightarrow>
      execute_deployment gen did w = (Inl InvalidStateTransitionError, w)) \<and>
   (\<forall>d p. dict_get (deployment_store w) did = Some d \<and> plan d = Some p \<and>
          EXECUTING \<in> VALID_TRANSITIONS (status d) \<longrightarrow>
      (\<exists>tasks w'.
         execute_deployment gen did w = (Inr tasks, w') \<and>
         length tasks = length (steps p) \<and>
         (\<forall>i < length tasks.
            task_status (tasks ! i) = T_QUEUED \<and>
            timeout_seconds (tasks ! i) = 2 * estimated_duration_seconds (steps p ! i) \<and>
            idempotency_key (tasks ! i) = step_idempotency_key (steps p ! i) \<and>
            task_step_id (tasks ! i) = step_id (steps p ! i) \<and>
            deployment_id (tasks ! i) = did) \<and>
         (\<exists>d'. dict_get (deployment_store w') did = Some d' \<and> status d' = EXECUTING)))"
proof (intro conjI allI impI)
  assume "dict_get (deployment_store w) did = None"
  then show "execute_deployment gen did w = (Inl DeploymentNotFoundError, w)"
    by (simp add: execute_deployment_def)
next
  fix d assume "dict_get (deployment_store w) did = Some d \<and> plan d = None"
  then show "execute_deployment gen did w = (Inl DeploymentPlanMissingError, w)"
    by (simp add: execute_deployment_def)
next
  fix d p
  assume a: "dict_get (deployment_store w) did = Some d \<and> plan d = Some p \<and>
          EXECUTING \<notin> VALID_TRANSITIONS (status d)"
  then have "start_execution d = (Some InvalidStateTransitionError, d)"
    by (simp add: start_execution_def transition_to_eq and_then_def)
  moreover have "alias_deployment did d w = w"
    using a by (simp add: alias_deployment_def dict_set_same)
  ultimately show "execute_deployment gen did w = (Inl InvalidStateTransitionError, w)"
    using a by (simp add: execute_deployment_def)
next
  fix d p
  assume a: "dict_get (deployment_store w) did = Some d \<and> plan d = Some p \<and>
          EXECUTING \<in> VALID_TRANSITIONS (status d)"
  define d1 where "d1 = add_event (DeploymentStarted (dep_id d) (dep_id d))
                          (d\<lparr>status := EXECUTING, dep_version := dep_version d + 1\<rparr>)"
  define w1 where "w1 = deployment_repo_update d1 (alias_deployment did d1 w)"
  define tasks where "tasks = map (\<lambda>(i, step). (new_task (gen i) did step)\<lparr>task_status := T_QUEUED, task_version := 2\<rparr>)
            (enumerate 0 (steps p))"
  define w2 where "w2 = snd (create_tasks gen 0 did (steps p) w1)"
  define d2 where "d2 = fst (publish_events d1 w2)"
  define w3 where "w3 = snd (publish_events d1 w2)"
  define w4 where "w4 = alias_deployment (dep_id d2) d2 (alias_deployment did d2 w3)"
  have se: "start_execution d = (None, d1)"
    using a by (simp add: start_execution_def transition_to_eq and_then_def d1_def add_event_def)
  have ct: "create_tasks gen 0 did (steps p) w1 = (Inr tasks, w2)"
    using create_tasks_result [of gen 0 did "steps p" w1]
    by (simp add: tasks_def w2_def prod_eq_iff)
  have ex: "execute_deployment gen did w = (Inr tasks, w4)"
    using a se ct
    by (simp add: execute_deployment_def w1_def [symmetric] w4_def d2_def w3_def
        split: prod.splits)
  have len: "length tasks = length (steps p)"
    by (simp add: tasks_def)
  have each: "\<forall>i < length tasks.
            task_status (tasks ! i) = T_QUEUED \<and>
            timeout_seconds (tasks ! i) = 2 * estimated_duration_seconds (steps p ! i) \<and>
            idempotency_key (tasks ! i) = step_idempotency_key (steps p ! i) \<and>
            task_step_id (tasks ! i) = step_id (steps p ! i) \<and>
            deployment_id (tasks ! i) = did"
    by (simp add: tasks_def nth_enumerate_eq new_task_def)
  have st: "status d2 = EXECUTING"
    by (simp add: d2_def publish_events_def collect_events_def d1_def add_event_def)
  have "dict_get (deployment_store w4) did = Some d2"
    by (simp add: w4_def alias_deployment_def dict_get_dict_set)
  with ex len each st
  show "\<exists>tasks w'.
         execute_deployment gen did w = (Inr tasks, w') \<and>
         length tasks = length (steps p) \<and>
         (\<forall>i < length tasks.
            task_status (tasks ! i) = T_QUEUED \<and>
            timeout_seconds (tasks ! i) = 2 * estimated_duration_seconds (steps p ! i) \<and>
            idempotency_key (tasks ! i) = step_idempotency_key (steps p ! i) \<and>
            task_step_id (tasks ! i) = step_id (steps p ! i) \<and>
            deployment_id (tasks ! i) = did) \<and>
         (\<exists>d'. dict_get (deployment_store w') did = Some d' \<and> status d' = EXECUTING)"
    by blast
qed

text \<open>
  C5 on the approved deployment \<open>d1\<close> with its one-step plan (scenario S1), and on an
  unknown id.
\<close>

theorem C5_execute_deployment_witness:
  "dict_get (deployment_store approved_world) ''d1'' = Some approved_deployment \<and>
   plan approved_deployment = Some web_plan \<and>
   EXECUTING \<in> VALID_TRANSITIONS (status approved_deployment) \<and>
   (\<exists>tasks w'.
      execute_deployment gen0 ''d1'' approved_world = (Inr tasks, w') \<and>
      length tasks = 1 \<and>
      task_status (tasks ! 0) = T_QUEUED \<and>
      timeout_seconds (tasks ! 0) = 120 \<and>
      idempotency_key (tasks ! 0) = ''k1'' \<and>
      (\<exists>d'. dict_get (deployment_store w') ''d1'' = Some d' \<and> status d' = EXECUTING)) \<and>
   dict_get (deployment_store empty_world) ''d1'' = None \<and>
   execute_deployment gen0 ''d1'' empty_world = (Inl DeploymentNotFoundError, empty_world)"
proof -
  have h: "dict_get (deployment_store approved_world) ''d1'' = Some approved_deployment \<and>
     plan approved_deployment = Some web_plan \<and>
     EXECUTING \<in> VALID_TRANSITIONS (status approved_deployment)"
    by (simp add: approved_world_def empty_world_def dict_get_def approved_deployment_def)
  have s: "steps web_plan = [web_step]"
    and t: "estimated_duration_seconds web_step = 60"
    and k: "step_idempotency_key web_step = ''k1''"
    by (simp_all add: web_plan_def web_step_def resource_step_def estimate_step_duration_def
        web_spec_def dict_get_def)
  have n: "dict_get (deployment_store empty_world) ''d1'' = None"
    by (simp add: empty_world_def dict_get_def)
  from C5_execute_deployment [of approved_world "''d1''" gen0] h
  obtain tasks w' where "execute_deployment gen0 ''d1'' approved_world = (Inr tasks, w')"
    and "length tasks = length (steps web_plan)"
    and "\<forall>i < length tasks.
            task_status (tasks ! i) = T_QUEUED \<and>
            timeout_seconds (tasks ! i) = 2 * estimated_duration_seconds (steps web_plan ! i) \<and>
            idempotency_key (tasks ! i) = step_idempotency_key (steps web_plan ! i) \<and>
            task_step_id (tasks ! i) = step_id (steps web_plan ! i) \<and>
            deployment_id (tasks ! i) = ''d1''"
    and "\<exists>d'. dict_get (deployment_store w') ''d1'' = Some d' \<and> status d' = EXECUTING"
    by blast
  then have "execute_deployment gen0 ''d1'' approved_world = (Inr tasks, w') \<and>
      length tasks = 1 \<and>
      task_status (tasks ! 0) = T_QUEUED \<and>
      timeout_seconds (tasks ! 0) = 120 \<and>
      idempotency_key (tasks ! 0) = ''k1'' \<and>
      (\<exists>d'. dict_get (deployment_store w') ''d1'' = Some d' \<and> status d' = EXECUTING)"
    by (simp add: s t k)
  then have "\<exists>tasks w'.
      execute_deployment gen0 ''d1'' approved_world = (Inr tasks, w') \<and>
      length tasks = 1 \<and>
      task_status (tasks ! 0) = T_QUEUED \<and>
      timeout_seconds (tasks ! 0) = 120 \<and>
      idempotency_key (tasks ! 0) = ''k1'' \<and>
      (\<exists>d'. dict_get (deployment_store w') ''d1'' = Some d' \<and> status d' = EXECUTING)"
    by blast
  moreover have "execute_deployment gen0 ''d1'' empty_world = (Inl DeploymentNotFoundError, empty_world)"
    using C5_execute_deployment [of empty_world "''d1''" gen0] n by blast
  ultimately show ?thesis using h n by blast
qed

text \<open>
  C5 as the claim words it does not hold: the deployment awaiting approval has a plan,
  and \<open>execute_deployment\<close> neither moves it to \<open>EXECUTING\<close> nor returns tasks; it raises
  \<open>InvalidStateTransitionError\<close>.
\<close>

theorem C5_awaiting_approval_counterexample:
  "dict_get (deployment_store awaiting_world) ''d1'' =
     Some (approved_deployment\<lparr>status := AWAITING_APPROVAL\<rparr>) \<and>
   plan (approved_deployment\<lparr>status := AWAITING_APPROVAL\<rparr>) = Some web_plan \<and>
   execute_deployment gen0 ''d1'' awaiting_world =
     (Inl InvalidStateTransitionError, awaiting_world)"
  by (simp add: awaiting_world_def empty_world_def dict_get_def approved_deployment_def
      execute_deployment_def start_execution_def transition_to_eq and_then_def
      pending_deployment_def alias_deployment_def)

subsection \<open>scan\_deployment\<close>

text \<open>
  C8. \<open>scan_deployment\<close> raises \<open>DriftScanError\<close> for an unknown deployment id, changing
  nothing. Otherwise it returns the detector's report for the expected state built from
  the plan, the report is in the drift store under its id, and exactly one event
  \<open>drift.detected\<close> with payload \<open>{deployment_id, drift_count, max_severity}\<close> is published
  when the report has drift and none when it has not; \<open>has_drift\<close> means that the report
  has at least one item.
\<close>

theorem C8_scan_deployment:
  "(dict_get (deployment_store w) did = None \<longrightarrow>
      scan_deployment detect_drift did w = (Inl DriftScanError, w)) \<and>
   (\<forall>d. dict_get (deployment_store w) did = Some d \<longrightarrow>
      (\<exists>w'. scan_deployment detect_drift did w =
               (Inr (detect_drift did (build_expected_state d)), w') \<and>
            dict_get (drift_store w') (rep_id (detect_drift did (build_expected_state d))) =
              Some (detect_drift did (build_expected_state d)) \<and>
            published w' =
              published w @
              (if has_drift (detect_drift did (build_expected_state d))
               then [(''drift.detected'',
                      [(''deployment_id'', PyStr did),
                       (''drift_count'',
                        PyInt (int (length (items (detect_drift did (build_expected_state d)))))),
                       (''max_severity'',
                        PyStr (severity_value
                                 (max_severity (detect_drift did (build_expected_state d)))))])]
               else []))) \<and>
   (has_drift r \<longleftrightarrow> items r \<noteq> [])"
  by (simp add: scan_deployment_def Let_def drift_repo_save_def publish_def dict_get_dict_set
      has_drift_def)

text \<open>
  C8 on the approved deployment with a detector that reports one changed property
  (scenario S6), with one that reports nothing, and on an unknown id.
\<close>

theorem C8_scan_deployment_witness:
  "dict_get (deployment_store approved_world) ''d1'' = Some approved_deployment \<and>
   fst (scan_deployment noisy_detector ''d1'' approved_world) =
     Inr (noisy_detector ''d1'' [(''aws/us-east-1/compute/web'', resource_spec_dump web_spec)]) \<and>
   published (snd (scan_deployment noisy_detector ''d1'' approved_world)) =
     [(''drift.detected'',
       [(''deployment_id'', PyStr ''d1''), (''drift_count'', PyInt 1),
        (''max_severity'', PyStr ''high'')])] \<and>
   published (snd (scan_deployment quiet_detector ''d1'' approved_world)) = [] \<and>
   dict_get (drift_store (snd (scan_deployment quiet_detector ''d1'' approved_world))) ''r1'' =
     Some (quiet_detector ''d1'' []) \<and>
   dict_get (deployment_store empty_world) ''d1'' = None \<and>
   scan_deployment noisy_detector ''d1'' empty_world = (Inl DriftScanError, empty_world)"
proof -
  have h: "dict_get (deployment_store approved_world) ''d1'' = Some approved_deployment"
    by (simp add: approved_world_def empty_world_def dict_get_def)
  have n: "dict_get (deployment_store empty_world) ''d1'' = None"
    by (simp add: empty_world_def dict_get_def)
  have e: "build_expected_state approved_deployment =
             [(''aws/us-east-1/compute/web'', resource_spec_dump web_spec)]"
    by (simp add: build_expected_state_def approved_deployment_def web_plan_def web_step_def
        resource_step_def resource_identifier_def web_spec_def)
  have p: "published approved_world = []"
    by (simp add: approved_world_def empty_world_def)
  from C8_scan_deployment [of approved_world "''d1''" noisy_detector] h
  obtain w1 where 1: "scan_deployment noisy_detector ''d1'' approved_world =
               (Inr (noisy_detector ''d1'' (build_expected_state approved_deployment)), w1)"
    and 2: "published w1 =
              published approved_world @
              (if has_drift (noisy_detector ''d1'' (build_expected_state approved_deployment))
               then [(''drift.detected'',
                      [(''deployment_id'', PyStr ''d1''),
                       (''drift_count'',
                        PyInt (int (length (items (noisy_detector ''d1'' (build_expected_state approved_deployment)))))),
                       (''max_severity'',
                        PyStr (severity_value
                                 (max_severity (noisy_detector ''d1'' (build_expected_state approved_deployment)))))])]
               else [])"
    by blast
  from C8_scan_deployment [of approved_world "''d1''" quiet_detector] h
  obtain w2 where 3: "scan_deployment quiet_detector ''d1'' approved_world =
               (Inr (quiet_detector ''d1'' (build_expected_state approved_deployment)), w2)"
    and 4: "dict_get (drift_store w2) (rep_id (quiet_detector ''d1'' (build_expected_state approved_deployment))) =
              Some (quiet_detector ''d1'' (build_expected_state approved_deployment))"
    and 5: "published w2 =
              published approved_world @
              (if has_drift (quiet_detector ''d1'' (build_expected_state approved_deployment))
               then [(''drift.detected'',
                      [(''deployment_id'', PyStr ''d1''),
                       (''drift_count'',
                        PyInt (int (length (items (quiet_detector ''d1'' (build_expected_state approved_deployment)))))),
                       (''max_severity'',
                        PyStr (severity_value
                                 (max_severity (quiet_detector ''d1'' (build_expected_state approved_deployment)))))])]
               else [])"
    by blast
  have a: "fst (scan_deployment noisy_detector ''d1'' approved_world) =
     Inr (noisy_detector ''d1'' [(''aws/us-east-1/compute/web'', resource_spec_dump web_spec)])"
    by (simp add: 1 e)
  have b: "published (snd (scan_deployment noisy_detector ''d1'' approved_world)) =
     [(''drift.detected'',
       [(''deployment_id'', PyStr ''d1''), (''drift_count'', PyInt 1),
        (''max_severity'', PyStr ''high'')])]"
    by (simp add: 1 2 p noisy_detector_def quiet_detector_def has_drift_def max_severity_def)
  have c: "published (snd (scan_deployment quiet_detector ''d1'' approved_world)) = []"
    by (simp add: 3 5 p quiet_detector_def has_drift_def)
  have d: "dict_get (drift_store (snd (scan_deployment quiet_detector ''d1'' approved_world))) ''r1'' =
     Some (quiet_detector ''d1'' [])"
    using 4 by (simp add: 3 quiet_detector_def)
  have f: "scan_deployment noisy_detector ''d1'' empty_world = (Inl DriftScanError, empty_world)"
    using C8_scan_deployment [of empty_world "''d1''" noisy_detector] n by blast
  show ?thesis using h n a b c d f by blast
qed

subsection \<open>handle\_task\_completion\<close>

text \<open>
  C7, evaluated. For an unknown task id \<open>handle_task_completion\<close> returns normally and
  changes nothing. For the running task \<open>t1\<close>, whose deployment \<open>d1\<close> is not stored, it
  returns normally as well, after it has marked the task \<open>SUCCEEDED\<close> and persisted it.
  No error reaches the caller in either case, whatever \<open>py_str\<close> is.
\<close>

theorem C7_not_found_returns_normally:
  "dict_get (task_store empty_world) ''t9'' = None \<and>
   handle_task_completion py_str ''t9'' True None '''' empty_world = (None, empty_world) \<and>
   dict_get (task_store orphan_world) ''t1'' = Some running_task \<and>
   dict_get (deployment_store orphan_world) (deployment_id running_task) = None \<and>
   handle_task_completion py_str ''t1'' True None '''' orphan_world =
     (None,
      orphan_world\<lparr>task_store :=
        [(''t1'', running_task\<lparr>task_status := T_SUCCEEDED, task_version := 5\<rparr>)]\<rparr>)"
  by (simp add: handle_task_completion_def empty_world_def orphan_world_def dict_get_def
      running_task_def new_task_def succeed_def task_transition_to_eq task_repo_save_def
      alias_task_def Let_def)

subsection \<open>Wave partitioning\<close>

lemma ordered_from_Nil: "ordered_from c []"
  by (simp add: ordered_from_def)

lemma ordered_from_Cons:
  "ordered_from c (w # ws) \<longleftrightarrow>
     (\<forall>s \<in> set w. set (dependencies s) \<subseteq> c) \<and> ordered_from (c \<union> step_id ` set w) ws"
proof
  assume a: "ordered_from c (w # ws)"
  have 1: "\<forall>s \<in> set w. set (dependencies s) \<subseteq> c"
  proof (intro ballI subsetI)
    fix s d assume "s \<in> set w" "d \<in> set (dependencies s)"
    with a [unfolded ordered_from_def, rule_format, of 0 s d] show "d \<in> c" by simp
  qed
  have 2: "ordered_from (c \<union> step_id ` set w) ws"
    unfolding ordered_from_def
  proof (intro allI impI ballI)
    fix i s d
    assume i: "i < length ws" and s: "s \<in> set (ws ! i)" and d: "d \<in> set (dependencies s)"
    from a [unfolded ordered_from_def, rule_format, of "Suc i" s d] i s d
    have "d \<in> c \<or> (\<exists>j < Suc i. d \<in> step_id ` set ((w # ws) ! j))" by simp
    then show "d \<in> c \<union> step_id ` set w \<or> (\<exists>j < i. d \<in> step_id ` set (ws ! j))"
    proof
      assume "d \<in> c" then show ?thesis by simp
    next
      assume "\<exists>j < Suc i. d \<in> step_id ` set ((w # ws) ! j)"
      then obtain j where j: "j < Suc i" "d \<in> step_id ` set ((w # ws) ! j)" by blast
      show ?thesis
      proof (cases j)
        case 0 with j show ?thesis by simp
      next
        case (Suc k) with j show ?thesis by auto
      qed
    qed
  qed
  from 1 2 show "(\<forall>s \<in> set w. set (dependencies s) \<subseteq> c) \<and> ordered_from (c \<union> step_id ` set w) ws"
    by blast
next
  assume a: "(\<forall>s \<in> set w. set (dependencies s) \<subseteq> c) \<and> ordered_from (c \<union> step_id ` set w) ws"
  show "ordered_from c (w # ws)"
    unfolding ordered_from_def
  proof (intro allI impI ballI)
    fix i s d
    assume i: "i < length (w # ws)" and s: "s \<in> set ((w # ws) ! i)"
      and d: "d \<in> set (dependencies s)"
    show "d \<in> c \<or> (\<exists>j < i. d \<in> step_id ` set ((w # ws) ! j))"
    proof (cases i)
      case 0
      with s d a show ?thesis by auto
    next
      case (Suc k)
      with i s have k: "k < length ws" "s \<in> set (ws ! k)" by simp_all
      from a have "ordered_from (c \<union> step_id ` set w) ws" by blast
      from this [unfolded ordered_from_def, rule_format, OF k d]
      have "d \<in> c \<union> step_id ` set w \<or> (\<exists>j < k. d \<in> step_id ` set (ws ! j))" .
      then consider "d \<in> c" | "d \<in> step_id ` set w" | j where "j < k" "d \<in> step_id ` set (ws ! j)"
        by blast
      then show ?thesis
      proof cases
        case 1 then show ?thesis by simp
      next
        case 2
        then have "0 < i \<and> d \<in> step_id ` set ((w # ws) ! 0)" using Suc by simp
        then show ?thesis by blast
      next
        case 3
        then have "Suc j < i \<and> d \<in> step_id ` set ((w # ws) ! Suc j)" using Suc by simp
        then show ?thesis by blast
      qed
    qed
  qed
qed

lemma mset_fold_remove1: "mset (fold remove1 ws xs) = mset xs - mset ws"
  by (induction ws arbitrary: xs) simp_all

lemma set_fold_remove1_sup: "set xs \<subseteq> set (fold remove1 ws xs) \<union> set ws"
proof (induction ws arbitrary: xs)
  case Nil
  show ?case by simp
next
  case (Cons a ws)
  have "set xs \<subseteq> set (remove1 a xs) \<union> {a}"
    using in_set_remove1 [of _ a xs] by blast
  also have "set (remove1 a xs) \<subseteq> set (fold remove1 ws (remove1 a xs)) \<union> set ws"
    by (rule Cons.IH)
  finally show ?case by auto
qed

lemma set_fold_remove1_sub: "set (fold remove1 ws xs) \<subseteq> set xs"
proof (induction ws arbitrary: xs)
  case Nil
  show ?case by simp
next
  case (Cons a ws)
  have "set (fold remove1 ws (remove1 a xs)) \<subseteq> set (remove1 a xs)" by (rule Cons.IH)
  also have "\<dots> \<subseteq> set xs" by (rule set_remove1_subset)
  finally show ?case by simp
qed

lemma fold_insert_ids: "fold (\<lambda>step. insert (step_id step)) w c = c \<union> step_id ` set w"
  by (induction w arbitrary: c) auto

lemma execution_waves_Cons:
  "execution_waves c (r # rs) =
     (let wave0 = filter (\<lambda>step. list_all (\<lambda>dep. dep \<in> c) (dependencies step)) (r # rs);
          wave = (if wave0 = [] then [r] else wave0)
      in wave # execution_waves (c \<union> step_id ` set wave) (fold remove1 wave (r # rs)))"
  by (simp add: Let_def fold_insert_ids del: filter.simps fold_simps)

lemma execution_waves_mset: "mset (concat (execution_waves c r)) = mset r"
proof (induction c r rule: execution_waves.induct)
  case (1 completed)
  show ?case by simp
next
  case (2 completed r rs)
  define wave0 where
    "wave0 = filter (\<lambda>step. list_all (\<lambda>dep. dep \<in> completed) (dependencies step)) (r # rs)"
  define wave where "wave = (if wave0 = [] then [r] else wave0)"
  have ih: "mset (concat (execution_waves (fold (\<lambda>step. insert (step_id step)) wave completed)
                            (fold remove1 wave (r # rs))))
            = mset (fold remove1 wave (r # rs))"
    using "2.IH" [OF wave0_def wave_def] .
  have sub: "mset wave \<subseteq># mset (r # rs)"
  proof (cases "wave0 = []")
    case True
    then show ?thesis by (simp add: wave_def)
  next
    case False
    then have "wave = wave0" by (simp add: wave_def)
    then show ?thesis
      unfolding wave0_def by (simp del: filter.simps mset.simps add: mset_filter multiset_filter_subset)
  qed
  have "execution_waves completed (r # rs) =
          wave # execution_waves (fold (\<lambda>step. insert (step_id step)) wave completed)
                   (fold remove1 wave (r # rs))"
    by (simp add: Let_def wave_def wave0_def del: filter.simps fold_simps)
  then have "mset (concat (execution_waves completed (r # rs))) =
               mset wave + (mset (r # rs) - mset wave)"
    by (simp add: ih mset_fold_remove1 del: execution_waves.simps mset.simps)
  also have "\<dots> = mset (r # rs)"
    using sub by (simp del: mset.simps)
  finally show ?case .
qed

lemma execution_waves_nonempty: "[] \<notin> set (execution_waves c r)"
proof (induction c r rule: execution_waves.induct)
  case (1 completed)
  show ?case by simp
next
  case (2 completed r rs)
  define wave0 where
    "wave0 = filter (\<lambda>step. list_all (\<lambda>dep. dep \<in> completed) (dependencies step)) (r # rs)"
  define wave where "wave = (if wave0 = [] then [r] else wave0)"
  have ih: "[] \<notin> set (execution_waves (fold (\<lambda>step. insert (step_id step)) wave completed)
                            (fold remove1 wave (r # rs)))"
    using "2.IH" [OF wave0_def wave_def] .
  have ne: "wave \<noteq> []" by (simp add: wave_def)
  have "execution_waves completed (r # rs) =
          wave # execution_waves (fold (\<lambda>step. insert (step_id step)) wave completed)
                   (fold remove1 wave (r # rs))"
    by (simp add: Let_def wave_def wave0_def del: filter.simps fold_simps)
  then show ?case using ih ne by (simp del: execution_waves.simps)
qed

lemma execution_waves_ordered:
  assumes wf: "wf (dependency_edges all)"
    and closed: "\<forall>s \<in> set all. set (dependencies s) \<subseteq> step_id ` set all"
  shows "set r \<subseteq> set all \<Longrightarrow> step_id ` (set all - set r) \<subseteq> c \<Longrightarrow>
         ordered_from c (execution_waves c r)"
proof (induction c r rule: execution_waves.induct)
  case (1 completed)
  show ?case by (simp add: ordered_from_Nil)
next
  case (2 completed r rs)
  define wave0 where
    "wave0 = filter (\<lambda>step. list_all (\<lambda>dep. dep \<in> completed) (dependencies step)) (r # rs)"
  define wave where "wave = (if wave0 = [] then [r] else wave0)"
  define c' where "c' = fold (\<lambda>step. insert (step_id step)) wave completed"
  define r' where "r' = fold remove1 wave (r # rs)"
  have unfold: "execution_waves completed (r # rs) = wave # execution_waves c' r'"
    by (simp add: Let_def wave_def wave0_def c'_def r'_def del: filter.simps fold_simps)
  have c': "c' = completed \<union> step_id ` set wave"
    by (simp add: c'_def fold_insert_ids)
  \<comment> \<open>some remaining step has all its dependencies completed\<close>
  have "step_id r \<in> step_id ` set (r # rs)" by simp
  with wf obtain z where z: "z \<in> step_id ` set (r # rs)"
    and zmin: "\<And>y. (y, z) \<in> dependency_edges all \<Longrightarrow> y \<notin> step_id ` set (r # rs)"
    by (rule wfE_min) blast
  from z obtain s where s: "s \<in> set (r # rs)" and zs: "z = step_id s" by blast
  have s_all: "s \<in> set all" using s "2.prems"(1) by blast
  have s_ok: "list_all (\<lambda>dep. dep \<in> completed) (dependencies s)"
    unfolding list_all_iff
  proof
    fix d assume d: "d \<in> set (dependencies s)"
    then have "(d, z) \<in> dependency_edges all"
      using s_all zs by (auto simp: dependency_edges_def)
    then have not_rem: "d \<notin> step_id ` set (r # rs)" by (rule zmin)
    from closed s_all d obtain s' where s': "s' \<in> set all" "d = step_id s'" by blast
    with not_rem have "s' \<notin> set (r # rs)" by blast
    with s' have "d \<in> step_id ` (set all - set (r # rs))" by blast
    with "2.prems"(2) show "d \<in> completed" by blast
  qed
  have "s \<in> set wave0"
    unfolding wave0_def using s s_ok by (simp del: filter.simps)
  then have w0: "wave0 \<noteq> []" by auto
  then have wave: "wave = wave0" by (simp add: wave_def)
  have wave_ok: "\<forall>s \<in> set wave. set (dependencies s) \<subseteq> completed"
    unfolding wave wave0_def by (auto simp: list_all_iff simp del: filter.simps)
  have r'_sub: "set r' \<subseteq> set all"
    using set_fold_remove1_sub [of wave "r # rs"] "2.prems"(1) by (auto simp: r'_def)
  have "set all - set r' \<subseteq> (set all - set (r # rs)) \<union> set wave"
    using set_fold_remove1_sup [of "r # rs" wave] by (auto simp: r'_def)
  then have inv: "step_id ` (set all - set r') \<subseteq> c'"
    using "2.prems"(2) unfolding c' by blast
  have "ordered_from c' (execution_waves c' r')"
    using "2.IH" [OF wave0_def wave_def] r'_sub inv unfolding c'_def r'_def by blast
  then show ?case
    unfolding unfold ordered_from_Cons using wave_ok c' by simp
qed

lemma dependency_edges_finite: "finite (dependency_edges xs)"
proof -
  have "dependency_edges xs \<subseteq> (\<Union>s \<in> set xs. set (dependencies s)) \<times> step_id ` set xs"
    by (auto simp: dependency_edges_def)
  moreover have "finite ((\<Union>s \<in> set xs. set (dependencies s)) \<times> step_id ` set xs)"
    by simp
  ultimately show ?thesis by (rule finite_subset)
qed

lemma get_execution_order_partition:
  assumes "distinct (steps p)"
  shows "partition_of (get_execution_order p) (steps p)"
proof -
  have m: "mset (concat (get_execution_order p)) = mset (steps p)"
    by (simp add: get_execution_order_def execution_waves_mset)
  have "distinct (concat (get_execution_order p))"
    using assms m by (metis mset_eq_imp_distinct_iff)
  moreover have "set (concat (get_execution_order p)) = set (steps p)"
    using m by (rule mset_eq_setD)
  moreover have "[] \<notin> set (get_execution_order p)"
    by (simp add: get_execution_order_def execution_waves_nonempty)
  ultimately show ?thesis by (simp add: partition_of_def)
qed

lemma get_execution_order_ordered:
  assumes "acyclic (dependency_edges (steps p))"
    and "\<forall>s \<in> set (steps p). set (dependencies s) \<subseteq> step_id ` set (steps p)"
  shows "dependencies_in_earlier_waves (get_execution_order p)"
proof -
  have "wf (dependency_edges (steps p))"
    using dependency_edges_finite assms(1) by (rule finite_acyclic_wf)
  from execution_waves_ordered [OF this assms(2), of "steps p" "{}"]
  show ?thesis by (simp add: dependencies_in_earlier_waves_def get_execution_order_def)
qed

lemma step_id_resolve_step: "step_id (resolve_step m s) = step_id s"
  by (simp add: resolve_step_def split: prod.splits)

lemma resolve_loop_subset:
  "set (fst (resolve_loop m ds (nd, ch))) \<subseteq> set nd \<union> {v. \<exists>k. dict_get m k = Some v}"
proof (induction ds arbitrary: nd ch)
  case Nil
  show ?case by simp
next
  case (Cons a ds)
  show ?case
  proof (cases "dict_get m a")
    case None
    with Cons.IH [of nd ch] show ?thesis by simp
  next
    case (Some v)
    show ?thesis
    proof (cases "v \<noteq> [] \<and> v \<notin> set nd")
      case True
      with Some Cons.IH [of "nd @ [v]" True] show ?thesis by auto
    next
      case False
      with Some Cons.IH [of nd ch] show ?thesis by auto
    qed
  qed
qed

lemma dependencies_resolve_step:
  "set (dependencies (resolve_step m s)) \<subseteq>
     set (dependencies s) \<union> {v. \<exists>k. dict_get m k = Some v}"
proof -
  obtain nd ch where r: "resolve_loop m (rs_dependencies (resource_spec s)) (dependencies s, False) = (nd, ch)"
    by (cases "resolve_loop m (rs_dependencies (resource_spec s)) (dependencies s, False)") auto
  have "set nd \<subseteq> set (dependencies s) \<union> {v. \<exists>k. dict_get m k = Some v}"
    using resolve_loop_subset [of m "rs_dependencies (resource_spec s)" "dependencies s" False]
    by (simp add: r)
  then show ?thesis
    by (auto simp: resolve_step_def r)
qed

lemma dict_fold_values:
  "dict_get (fold (\<lambda>x m. dict_set (f x) (g x) m) xs m0) k = Some v \<Longrightarrow>
     v \<in> g ` set xs \<or> dict_get m0 k = Some v"
proof (induction xs arbitrary: m0)
  case Nil
  then show ?case by simp
next
  case (Cons a xs)
  from Cons.IH [of "dict_set (f a) (g a) m0"] Cons.prems
  have "v \<in> g ` set xs \<or> dict_get (dict_set (f a) (g a) m0) k = Some v" by simp
  then show ?case by (auto simp: dict_get_dict_set split: if_splits)
qed

lemma resolve_dependencies_ids: "map step_id (resolve_dependencies xs) = map step_id xs"
  by (simp add: resolve_dependencies_def Let_def step_id_resolve_step)

lemma resolve_dependencies_closed:
  assumes "\<forall>s \<in> set xs. set (dependencies s) \<subseteq> step_id ` set xs"
  shows "\<forall>s \<in> set (resolve_dependencies xs).
           set (dependencies s) \<subseteq> step_id ` set (resolve_dependencies xs)"
proof (intro ballI subsetI)
  fix s d
  assume s: "s \<in> set (resolve_dependencies xs)" and d: "d \<in> set (dependencies s)"
  define m where "m = fold (\<lambda>step m. dict_set (resource_identifier (resource_spec step)) (step_id step) m) xs []"
  have ids: "step_id ` set (resolve_dependencies xs) = step_id ` set xs"
    using resolve_dependencies_ids [of xs] by (metis set_map)
  from s obtain s0 where s0: "s0 \<in> set xs" "s = resolve_step m s0"
    by (auto simp: resolve_dependencies_def Let_def m_def)
  with d dependencies_resolve_step [of m s0]
  have "d \<in> set (dependencies s0) \<or> (\<exists>k. dict_get m k = Some d)" by auto
  then have "d \<in> step_id ` set xs"
  proof
    assume "d \<in> set (dependencies s0)"
    with assms s0 show ?thesis by blast
  next
    assume "\<exists>k. dict_get m k = Some d"
    then obtain k where "dict_get m k = Some d" by blast
    from dict_fold_values [OF this [unfolded m_def]]
    show ?thesis by (simp add: dict_get_def)
  qed
  then show "d \<in> step_id ` set (resolve_dependencies xs)" by (simp add: ids)
qed

lemma create_steps_from_resources_ids:
  "map step_id (create_steps_from_resources gen i) =
     map (\<lambda>k. gen (2 * k)) [0..<length (resources i)]"
proof -
  let ?ys = "sort_key priority_key (resources i)"
  have "map step_id (create_steps_from_resources gen i) =
          map (\<lambda>x. gen (2 * fst x)) (enumerate 0 ?ys)"
    by (simp add: create_steps_from_resources_def resource_step_def split_def comp_def)
  also have "\<dots> = map (\<lambda>k. gen (2 * k)) [0..<length (resources i)]"
    by (rule nth_equalityI) (simp_all add: nth_enumerate_eq)
  finally show ?thesis .
qed

lemma create_steps_from_resources_deps:
  "s \<in> set (create_steps_from_resources gen i) \<Longrightarrow> dependencies s = []"
  by (auto simp: create_steps_from_resources_def resource_step_def)

lemma default_steps_for_ids:
  "map step_id (default_steps_for gen i j p) = [gen (4 * j), gen (4 * j + 2)]"
  by (simp add: default_steps_for_def Let_def)

lemma default_steps_for_deps:
  "s \<in> set (default_steps_for gen i j p) \<Longrightarrow> set (dependencies s) \<subseteq> {gen (4 * j)}"
  by (auto simp: default_steps_for_def Let_def)

lemma default_steps_from:
  assumes "inj gen"
  shows "distinct (map step_id (concat (map (\<lambda>(j, p). default_steps_for gen i j p) (enumerate n ps)))) \<and>
         set (map step_id (concat (map (\<lambda>(j, p). default_steps_for gen i j p) (enumerate n ps))))
           \<subseteq> gen ` {k. 4 * n \<le> k}"
proof (induction ps arbitrary: n)
  case Nil
  show ?case by simp
next
  case (Cons p ps)
  let ?rest = "concat (map (\<lambda>(j, p). default_steps_for gen i j p) (enumerate (Suc n) ps))"
  have ih: "distinct (map step_id ?rest)"
    "set (map step_id ?rest) \<subseteq> gen ` {k. 4 * Suc n \<le> k}"
    using Cons.IH [of "Suc n"] by blast+
  have e: "map step_id (concat (map (\<lambda>(j, p). default_steps_for gen i j p) (enumerate n (p # ps))))
             = gen (4 * n) # gen (4 * n + 2) # map step_id ?rest"
    by (simp add: default_steps_for_ids del: set_map)
  have a: "gen (4 * n) \<noteq> gen (4 * n + 2)"
    using injD [OF assms, of "4 * n" "4 * n + 2"] by auto
  have b1: "gen (4 * n) \<notin> set (map step_id ?rest)"
  proof
    assume "gen (4 * n) \<in> set (map step_id ?rest)"
    with ih(2) obtain k where "4 * Suc n \<le> k" "gen (4 * n) = gen k" by blast
    with injD [OF assms, of "4 * n" k] show False by simp
  qed
  have b2: "gen (4 * n + 2) \<notin> set (map step_id ?rest)"
  proof
    assume "gen (4 * n + 2) \<in> set (map step_id ?rest)"
    with ih(2) obtain k where "4 * Suc n \<le> k" "gen (4 * n + 2) = gen k" by blast
    with injD [OF assms, of "4 * n + 2" k] show False by simp
  qed
  have "gen ` {k. 4 * Suc n \<le> k} \<subseteq> gen ` {k. 4 * n \<le> k}"
    by (rule image_mono) auto
  with ih(2) have c: "set (map step_id ?rest) \<subseteq> gen ` {k. 4 * n \<le> k}"
    by (rule subset_trans)
  have d: "gen (4 * n) \<in> gen ` {k. 4 * n \<le> k}" "gen (4 * n + 2) \<in> gen ` {k. 4 * n \<le> k}"
    by auto
  show ?case
    unfolding e using ih(1) a b1 b2 c d by (simp del: set_map)
qed

lemma create_default_steps_ids:
  "inj gen \<Longrightarrow> distinct (map step_id (create_default_steps gen i))"
  using default_steps_from [of gen i 0 "target_providers i"]
  by (simp add: create_default_steps_def)

lemma create_default_steps_closed:
  "\<forall>s \<in> set (create_default_steps gen i).
     set (dependencies s) \<subseteq> step_id ` set (create_default_steps gen i)"
proof (intro ballI subsetI)
  fix s d
  assume s: "s \<in> set (create_default_steps gen i)" and d: "d \<in> set (dependencies s)"
  from s obtain j p where jp: "(j, p) \<in> set (enumerate 0 (target_providers i))"
    and sj: "s \<in> set (default_steps_for gen i j p)"
    by (auto simp: create_default_steps_def)
  from default_steps_for_deps [OF sj] d have "d = gen (4 * j)" by auto
  moreover have "gen (4 * j) \<in> step_id ` set (default_steps_for gen i j p)"
    using default_steps_for_ids [of gen i j p] by (metis list.set_intros(1) set_map)
  ultimately show "d \<in> step_id ` set (create_default_steps gen i)"
    using jp by (auto simp: create_default_steps_def)
qed

lemma generate_plan_steps:
  "steps (generate_plan gen i) =
     resolve_dependencies
       (if create_steps_from_resources gen i = [] then create_default_steps gen i
        else create_steps_from_resources gen i)"
  by (simp add: generate_plan_def Let_def)

lemma generate_plan_distinct:
  assumes "inj gen"
  shows "distinct (map step_id (steps (generate_plan gen i)))"
proof -
  have "distinct (map step_id (create_steps_from_resources gen i))"
    unfolding create_steps_from_resources_ids
    by (auto simp: distinct_map inj_on_def dest!: injD [OF assms])
  then show ?thesis
    using create_default_steps_ids [OF assms, of i]
    by (simp add: generate_plan_steps resolve_dependencies_ids)
qed

lemma generate_plan_closed:
  "\<forall>s \<in> set (steps (generate_plan gen i)).
     set (dependencies s) \<subseteq> step_id ` set (steps (generate_plan gen i))"
proof -
  have "\<forall>s \<in> set (create_steps_from_resources gen i).
          set (dependencies s) \<subseteq> step_id ` set (create_steps_from_resources gen i)"
    by (simp add: create_steps_from_resources_deps)
  then have "\<forall>s \<in> set (if create_steps_from_resources gen i = [] then create_default_steps gen i
                      else create_steps_from_resources gen i).
          set (dependencies s) \<subseteq>
            step_id ` set (if create_steps_from_resources gen i = [] then create_default_steps gen i
                           else create_steps_from_resources gen i)"
    using create_default_steps_closed [of gen i]
    by (cases "create_steps_from_resources gen i = []") simp_all
  then show ?thesis
    unfolding generate_plan_steps by (rule resolve_dependencies_closed)
qed

text \<open>
  C4, as the code has it. For every plan that \<open>generate_plan\<close> produces (generated ids
  being pairwise distinct), \<open>get_execution_order\<close> returns non-empty waves in which every
  step of the plan appears exactly once. When the step dependencies of the plan are
  acyclic, every dependency of a step is the id of a step in a strictly earlier wave; when
  they are not, the fallback \<open>wave = [remaining[0]]\<close> schedules a step before one of its
  dependencies.
\<close>

theorem C4_wave_partition:
  assumes "inj gen"
  shows "partition_of (get_execution_order (generate_plan gen i)) (steps (generate_plan gen i)) \<and>
         (acyclic (dependency_edges (steps (generate_plan gen i))) \<longrightarrow>
            dependencies_in_earlier_waves (get_execution_order (generate_plan gen i)))"
proof -
  have "distinct (steps (generate_plan gen i))"
    using generate_plan_distinct [OF assms, of i] by (simp add: distinct_map)
  then have "partition_of (get_execution_order (generate_plan gen i)) (steps (generate_plan gen i))"
    by (rule get_execution_order_partition)
  moreover have "acyclic (dependency_edges (steps (generate_plan gen i))) \<longrightarrow>
            dependencies_in_earlier_waves (get_execution_order (generate_plan gen i))"
    using get_execution_order_ordered [OF _ generate_plan_closed] by blast
  ultimately show ?thesis by blast
qed

lemma ordered_from_earlier_ok: "ordered_from (set completed) ws = earlier_ok completed ws"
proof (induction ws arbitrary: completed)
  case Nil
  show ?case by (simp add: ordered_from_Nil)
next
  case (Cons w ws)
  have "set completed \<union> step_id ` set w = set (completed @ map step_id w)" by simp
  then have "ordered_from (set completed \<union> step_id ` set w) ws = earlier_ok (completed @ map step_id w) ws"
    using Cons.IH [of "completed @ map step_id w"] by simp
  then show ?case
    by (auto simp: ordered_from_Cons list_all_iff)
qed

lemma dependencies_in_earlier_waves_code:
  "dependencies_in_earlier_waves ws = earlier_ok [] ws"
  using ordered_from_earlier_ok [of "[]" ws] by (simp add: dependencies_in_earlier_waves_def)

lemma dependency_edges_list:
  "dependency_edges xs = set (concat (map (\<lambda>s. map (\<lambda>d. (d, step_id s)) (dependencies s)) xs))"
  by (auto simp: dependency_edges_def)

lemma inj_gen0: "inj gen0"
  by (auto simp: inj_def gen0_def)

text \<open>
  C4 on scenario S3 of the specification, \<open>app\<close> depending on \<open>vpc\<close>: two waves, the network
  first.
\<close>

theorem C4_wave_partition_witness:
  "inj gen0 \<and>
   acyclic (dependency_edges (steps (generate_plan gen0 chain_intent))) \<and>
   map (map step_name) (get_execution_order (generate_plan gen0 chain_intent)) =
     [ [''deploy-vpc''], [''deploy-app'']] \<and>
   partition_of (get_execution_order (generate_plan gen0 chain_intent))
     (steps (generate_plan gen0 chain_intent)) \<and>
   dependencies_in_earlier_waves (get_execution_order (generate_plan gen0 chain_intent))"
proof -
  have e: "concat (map (\<lambda>s. map (\<lambda>d. (d, step_id s)) (dependencies s))
                    (steps (generate_plan gen0 chain_intent))) = [(''u'', ''uuu'')]"
    by code_simp
  have a: "acyclic (dependency_edges (steps (generate_plan gen0 chain_intent)))"
    unfolding dependency_edges_list e by (simp add: acyclic_insert wf_acyclic)
  have n: "map (map step_name) (get_execution_order (generate_plan gen0 chain_intent)) =
     [ [''deploy-vpc''], [''deploy-app'']]"
    by code_simp
  show ?thesis
    using C4_wave_partition [OF inj_gen0, of chain_intent] a n inj_gen0 by blast
qed

text \<open>
  C4 as the claim words it does not hold. When \<open>vpc\<close> is declared to depend on \<open>app\<close> as
  well, the planner resolves both resource dependencies into step dependencies, no step is
  eligible, and the fallback puts the \<open>vpc\<close> step (id \<open>u\<close>) in the first wave although it
  depends on the \<open>app\<close> step (id \<open>uuu\<close>) of the second.
\<close>

theorem C4_cyclic_dependencies_counterexample:
  "map step_id (steps (generate_plan gen0 cyclic_intent)) = [''u'', ''uuu''] \<and>
   map dependencies (steps (generate_plan gen0 cyclic_intent)) = [ [''uuu''], [''u'']] \<and>
   map (map step_id) (get_execution_order (generate_plan gen0 cyclic_intent)) = [ [''u''], [''uuu'']] \<and>
   \<not> dependencies_in_earlier_waves (get_execution_order (generate_plan gen0 cyclic_intent))"
  unfolding dependencies_in_earlier_waves_code by code_simp

subsection \<open>Progress\<close>

text \<open>
  The exponent that \<open>binade\<close> computes is the one of the binade that holds \<open>x\<close>, for
  \<open>x \<ge> 1\<close> and for \<open>0 < x < 1\<close>.
\<close>

lemma binade_bounds:
  assumes "1 \<le> x"
  shows "0 \<le> binade x \<and> 2 ^ nat (binade x) \<le> x \<and> x < 2 * 2 ^ nat (binade x)"
proof -
  define n where "n = nat \<lfloor>x\<rfloor>"
  define k where "k = floorlog 2 n"
  have fl: "1 \<le> \<lfloor>x\<rfloor>" using assms by (simp add: le_floor_iff)
  then have n: "0 < n" and nx: "int n = \<lfloor>x\<rfloor>" by (simp_all add: n_def)
  from floorlog_bounds [OF n, of 2]
  have b: "2 ^ (k - 1) \<le> n" "n < 2 ^ k" by (simp_all add: k_def)
  have k: "1 \<le> k"
  proof (rule ccontr)
    assume "\<not> 1 \<le> k"
    then have "k = 0" by simp
    with b(2) n show False by simp
  qed
  have e: "binade x = int k - 1"
    using assms by (simp add: binade_def k_def n_def)
  then have ne: "nat (binade x) = k - 1" by simp
  have "(2::rat) ^ (k - 1) = of_int (int (2 ^ (k - 1)))" by simp
  also have "\<dots> \<le> of_int (int n)" using b(1) by (simp only: of_int_le_iff of_nat_le_iff)
  also have "\<dots> \<le> x" by (simp only: nx of_int_floor_le)
  finally have lo: "(2::rat) ^ (k - 1) \<le> x" .
  have "Suc n \<le> 2 ^ k" using b(2) by simp
  then have "int (Suc n) \<le> int (2 ^ k)" by (simp only: of_nat_le_iff)
  then have "int n + 1 \<le> int (2 ^ k)" by simp
  then have "(of_int (int n + 1) :: rat) \<le> of_int (int (2 ^ k))" by (simp only: of_int_le_iff)
  moreover have "x < of_int (int n + 1)"
    using floor_correct [of x] by (simp add: nx)
  ultimately have "x < of_int (int (2 ^ k))" by simp
  also have "of_int (int (2 ^ k)) = (2::rat) ^ k" by simp
  also have "\<dots> = 2 * 2 ^ (k - 1)"
    using k by (cases k) simp_all
  finally have hi: "x < 2 * 2 ^ (k - 1)" .
  have z: "0 \<le> binade x" using e k by simp
  show ?thesis unfolding ne using z lo hi by blast
qed

lemma binade_bounds_small:
  assumes "0 < x" "x < 1"
  shows "binade x < 0 \<and> 1 / 2 ^ nat (- binade x) \<le> x \<and> x < 2 / 2 ^ nat (- binade x)"
proof -
  define y where "y = 1 / x"
  define m where "m = nat (\<lceil>y\<rceil> - 1)"
  define k where "k = floorlog 2 m"
  have y1: "1 < y" using assms by (simp add: y_def)
  then have c2: "2 \<le> \<lceil>y\<rceil>" by (simp add: le_ceiling_iff)
  then have m: "0 < m" and my: "int m = \<lceil>y\<rceil> - 1" by (simp_all add: m_def)
  from floorlog_bounds [OF m, of 2]
  have b: "2 ^ (k - 1) \<le> m" "m < 2 ^ k" by (simp_all add: k_def)
  have k: "1 \<le> k"
  proof (rule ccontr)
    assume "\<not> 1 \<le> k"
    then have "k = 0" by simp
    with b(2) m show False by simp
  qed
  have e: "binade x = - int k"
    using assms by (simp add: binade_def k_def m_def y_def)
  then have ne: "nat (- binade x) = k" by simp
  have "Suc m \<le> 2 ^ k" using b(2) by simp
  then have "int (Suc m) \<le> int (2 ^ k)" by (simp only: of_nat_le_iff)
  then have "\<lceil>y\<rceil> \<le> 2 ^ k" using my by simp
  then have "(of_int \<lceil>y\<rceil> :: rat) \<le> of_int (2 ^ k)" by (simp only: of_int_le_iff)
  moreover have "y \<le> of_int \<lceil>y\<rceil>" by (rule le_of_int_ceiling)
  moreover have "(of_int (2 ^ k) :: rat) = 2 ^ k" by simp
  ultimately have hi: "y \<le> 2 ^ k" by (simp only: order_trans)
  have "(2::rat) ^ (k - 1) = of_int (int (2 ^ (k - 1)))" by simp
  also have "\<dots> \<le> of_int (int m)" using b(1) by (simp only: of_int_le_iff of_nat_le_iff)
  also have "\<dots> = of_int \<lceil>y\<rceil> - 1" by (simp add: my)
  also have "\<dots> < y" using ceiling_correct [of y] by simp
  finally have lo: "(2::rat) ^ (k - 1) < y" .
  have p: "(2::rat) ^ k = 2 * 2 ^ (k - 1)" using k by (cases k) simp_all
  have 1: "1 / 2 ^ k \<le> x"
    using hi assms(1) by (simp add: y_def field_simps)
  have 2: "x < 2 / 2 ^ k"
    using lo assms(1) by (simp add: y_def p field_simps)
  have z: "binade x < 0" using e k by simp
  show ?thesis unfolding ne using z 1 2 by blast
qed

lemma round_half_even_ge_floor: "\<lfloor>x\<rfloor> \<le> round_half_even x"
  by (simp add: round_half_even_def Let_def)

lemma round_half_even_ge:
  assumes "of_int k \<le> x"
  shows "k \<le> round_half_even x"
proof -
  have "k \<le> \<lfloor>x\<rfloor>" using assms by (simp add: le_floor_iff)
  also have "\<dots> \<le> round_half_even x" by (rule round_half_even_ge_floor)
  finally show ?thesis .
qed

lemma round_half_even_gt_half:
  assumes "of_int k + 1 / 2 < x"
  shows "k + 1 \<le> round_half_even x"
proof -
  have k: "k \<le> \<lfloor>x\<rfloor>" using assms by (simp add: le_floor_iff)
  show ?thesis
  proof (cases "k + 1 \<le> \<lfloor>x\<rfloor>")
    case True
    with round_half_even_ge_floor [of x] show ?thesis by simp
  next
    case False
    with k have f: "\<lfloor>x\<rfloor> = k" by simp
    with assms have "1 / 2 < x - of_int \<lfloor>x\<rfloor>" by simp
    then show ?thesis by (simp add: round_half_even_def Let_def f)
  qed
qed

lemma double_round_pos:
  assumes "0 < x"
  shows "double_round x =
           of_int (round_half_even (x / 2 powi (binade x - 52))) * 2 powi (binade x - 52)"
  using assms by (simp add: double_round_def Let_def)

lemma double_round_ge:
  assumes "0 < x" and "of_int k \<le> x / 2 powi (binade x - 52)"
  shows "of_int k * 2 powi (binade x - 52) \<le> double_round x"
proof -
  have "k \<le> round_half_even (x / 2 powi (binade x - 52))"
    using assms(2) by (rule round_half_even_ge)
  then have "(of_int k :: rat) \<le> of_int (round_half_even (x / 2 powi (binade x - 52)))"
    by (simp only: of_int_le_iff)
  then show ?thesis
    unfolding double_round_pos [OF assms(1)]
    by (rule mult_right_mono) simp
qed

lemma double_round_ge_binade:
  assumes "1 \<le> x"
  shows "2 ^ nat (binade x) \<le> double_round x"
proof -
  from binade_bounds [OF assms]
  have e: "0 \<le> binade x" and lo: "2 ^ nat (binade x) \<le> x" by blast+
  define u :: rat where "u = 2 powi (binade x - 52)"
  have u: "0 < u" by (simp add: u_def)
  have split: "(2::rat) ^ nat (binade x) = 2 ^ 52 * u"
  proof -
    have "(2::rat) powi (52 + (binade x - 52)) = 2 powi 52 * 2 powi (binade x - 52)"
      by (rule power_int_add) simp
    moreover have "(2::rat) powi (52 + (binade x - 52)) = 2 ^ nat (binade x)"
      using e by (simp add: power_int_def)
    ultimately show ?thesis by (simp add: u_def)
  qed
  have "(2::rat) ^ 52 \<le> x / u"
    using lo u by (simp add: split pos_le_divide_eq)
  then have "(of_int (2 ^ 52) :: rat) \<le> x / 2 powi (binade x - 52)"
    by (simp add: u_def)
  from double_round_ge [OF _ this] assms
  have "of_int (2 ^ 52) * u \<le> double_round x" by (simp add: u_def)
  then show ?thesis by (simp add: split)
qed

lemma int_truediv_gt_one:
  assumes "0 < b" "b < a" "b < 2 ^ 53"
  shows "1 + 1 / 2 ^ 52 \<le> int_truediv a b"
proof -
  define x :: rat where "x = of_int a / of_int b"
  have bpos: "(0::rat) < of_int b" using assms(1) by simp
  have "(of_int b :: rat) + 1 \<le> of_int a"
    using assms(2) by (metis of_int_1 of_int_add of_int_le_iff zless_imp_add1_zle)
  then have "(of_int b + 1) / of_int b \<le> (of_int a :: rat) / of_int b"
    using bpos by (intro divide_right_mono) simp_all
  moreover have "(of_int b + 1) / of_int b = 1 + 1 / (of_int b :: rat)"
    using bpos by (simp add: add_divide_distrib)
  ultimately have x1: "1 + 1 / of_int b \<le> x"
    by (simp add: x_def)
  have "(of_int b :: rat) < 2 ^ 53"
    using assms(3) by (metis of_int_less_iff of_int_numeral of_int_power)
  then have binv: "1 / 2 ^ 53 < 1 / (of_int b :: rat)"
    using bpos by (simp add: field_simps)
  have x2: "1 + 1 / 2 ^ 53 < x" using x1 binv by linarith
  then have x3: "1 \<le> x" by simp
  from binade_bounds [OF x3]
  have e: "0 \<le> binade x" and lo: "2 ^ nat (binade x) \<le> x" by blast+
  have xpos: "0 < x" using x3 by simp
  show ?thesis
  proof (cases "binade x = 0")
    case True
    have u: "(2::rat) powi (binade x - 52) = 1 / 2 ^ 52"
      by (simp add: True power_int_def inverse_eq_divide power_one_over)
    have "of_int (2 ^ 52) + 1 / 2 < x / (1 / 2 ^ 52)"
      using x2 by simp
    then have "2 ^ 52 + 1 \<le> round_half_even (x / (1 / 2 ^ 52))"
      by (rule round_half_even_gt_half)
    then have "(of_int (2 ^ 52 + 1) :: rat) \<le> of_int (round_half_even (x / (1 / 2 ^ 52)))"
      by (simp only: of_int_le_iff)
    then have "of_int (2 ^ 52 + 1) * (1 / 2 ^ 52) \<le>
                 of_int (round_half_even (x / (1 / 2 ^ 52))) * (1 / 2 ^ 52 :: rat)"
      by (rule mult_right_mono) simp
    then show ?thesis
      by (simp add: int_truediv_def x_def [symmetric] double_round_pos [OF xpos] u)
  next
    case False
    with e have "1 \<le> nat (binade x)" by simp
    then have "(2::rat) ^ 1 \<le> 2 ^ nat (binade x)"
      by (rule power_increasing) simp
    with double_round_ge_binade [OF x3] have "2 \<le> double_round x" by simp
    then show ?thesis by (simp add: int_truediv_def x_def [symmetric])
  qed
qed

lemma float_mul_100_gt:
  assumes "1 + 1 / 2 ^ 52 \<le> q"
  shows "100 < float_mul q 100"
proof -
  define y :: rat where "y = q * 100"
  have y1: "100 + 100 / 2 ^ 52 \<le> y" using assms by (simp add: y_def)
  then have y2: "1 \<le> y" by simp
  then have ypos: "0 < y" by simp
  from binade_bounds [OF y2]
  have e: "0 \<le> binade y" and hi: "y < 2 * 2 ^ nat (binade y)" by blast+
  have n6: "6 \<le> nat (binade y)"
  proof (rule ccontr)
    assume "\<not> 6 \<le> nat (binade y)"
    then have "nat (binade y) \<le> 5" by simp
    then have "(2::rat) ^ nat (binade y) \<le> 2 ^ 5" by (rule power_increasing) simp
    with hi y1 show False by simp
  qed
  show ?thesis
  proof (cases "nat (binade y) = 6")
    case True
    with e have b: "binade y = 6" by simp
    have u: "(2::rat) powi (binade y - 52) = 1 / 2 ^ 46"
      by (simp add: b power_int_def inverse_eq_divide power_one_over)
    have "of_int (100 * 2 ^ 46) + 1 / 2 < y / (1 / 2 ^ 46)"
      using y1 by simp
    then have "100 * 2 ^ 46 + 1 \<le> round_half_even (y / (1 / 2 ^ 46))"
      by (rule round_half_even_gt_half)
    then have "(of_int (100 * 2 ^ 46 + 1) :: rat) \<le> of_int (round_half_even (y / (1 / 2 ^ 46)))"
      by (simp only: of_int_le_iff)
    then have "of_int (100 * 2 ^ 46 + 1) * (1 / 2 ^ 46) \<le>
                 of_int (round_half_even (y / (1 / 2 ^ 46))) * (1 / 2 ^ 46 :: rat)"
      by (rule mult_right_mono) simp
    then show ?thesis
      by (simp add: float_mul_def y_def [symmetric] double_round_pos [OF ypos] u)
  next
    case False
    with n6 have "7 \<le> nat (binade y)" by simp
    then have "(2::rat) ^ 7 \<le> 2 ^ nat (binade y)"
      by (rule power_increasing) simp
    with double_round_ge_binade [OF y2] have "128 \<le> double_round y" by simp
    then show ?thesis by (simp add: float_mul_def y_def [symmetric])
  qed
qed

lemma float_of_int_100: "float_of_int 100 = 100"
  by code_simp

text \<open>
  C10. \<open>progress_percentage\<close> is \<open>0.0\<close> when the plan is absent or has no steps, and
  otherwise the float product of the float quotient \<open>len(step_results) / len(plan.steps)\<close>
  and \<open>100\<close>. Nothing clamps it: with more step results than plan steps it is greater than
  \<open>100\<close>. The last part is proved with the roundings of the two float operations taken
  into account, for plans of fewer than \<open>2\<^sup>5\<^sup>3\<close> steps, which is every list a machine
  can hold; from \<open>2\<^sup>5\<^sup>3\<close> steps on the quotient of \<open>n + 1\<close> by \<open>n\<close> rounds to \<open>1.0\<close>.
\<close>

theorem C10_progress_percentage:
  "(plan d = None \<longrightarrow> progress_percentage d = 0) \<and>
   (\<forall>p. plan d = Some p \<and> steps p = [] \<longrightarrow> progress_percentage d = 0) \<and>
   (\<forall>p. plan d = Some p \<and> steps p \<noteq> [] \<longrightarrow>
      progress_percentage d =
        float_mul (int_truediv (int (length (step_results d))) (int (length (steps p)))) 100) \<and>
   (\<forall>p. plan d = Some p \<and> steps p \<noteq> [] \<and> length (steps p) < 2 ^ 53 \<and>
        length (steps p) < length (step_results d) \<longrightarrow>
      100 < progress_percentage d)"
proof (intro conjI allI impI)
  assume "plan d = None"
  then show "progress_percentage d = 0" by (simp add: progress_percentage_def)
next
  fix p assume "plan d = Some p \<and> steps p = []"
  then show "progress_percentage d = 0" by (simp add: progress_percentage_def)
next
  fix p assume "plan d = Some p \<and> steps p \<noteq> []"
  then show "progress_percentage d =
        float_mul (int_truediv (int (length (step_results d))) (int (length (steps p)))) 100"
    by (simp add: progress_percentage_def float_of_int_100)
next
  fix p
  assume a: "plan d = Some p \<and> steps p \<noteq> [] \<and> length (steps p) < 2 ^ 53 \<and>
        length (steps p) < length (step_results d)"
  then have "0 < int (length (steps p))" "int (length (steps p)) < int (length (step_results d))"
    by simp_all
  moreover have "int (length (steps p)) < 2 ^ 53"
    using a by (metis of_nat_less_iff of_nat_numeral of_nat_power)
  ultimately have "1 + 1 / 2 ^ 52 \<le>
      int_truediv (int (length (step_results d))) (int (length (steps p)))"
    by (rule int_truediv_gt_one)
  then have "100 < float_mul (int_truediv (int (length (step_results d))) (int (length (steps p)))) 100"
    by (rule float_mul_100_gt)
  with a show "100 < progress_percentage d"
    by (simp add: progress_percentage_def float_of_int_100)
qed

text \<open>
  C10 on the pending deployment (no plan), on the completed one (one result for one step,
  as the unit test \<open>test_progress_with_results\<close> has it) and on the completed one with a
  second result recorded.
\<close>

theorem C10_progress_percentage_witness:
  "plan pending_deployment = None \<and>
   progress_percentage pending_deployment = 0 \<and>
   plan completed_deployment = Some web_plan \<and>
   steps web_plan \<noteq> [] \<and>
   progress_percentage completed_deployment = 100 \<and>
   length (steps web_plan) < 2 ^ 53 \<and>
   length (steps web_plan) <
     length (step_results (completed_deployment\<lparr>step_results := [web_result, web_result]\<rparr>)) \<and>
   100 < progress_percentage (completed_deployment\<lparr>step_results := [web_result, web_result]\<rparr>) \<and>
   progress_percentage (completed_deployment\<lparr>step_results := [web_result, web_result]\<rparr>) = 200"
proof -
  have h: "plan pending_deployment = None"
    "plan completed_deployment = Some web_plan"
    "plan (completed_deployment\<lparr>step_results := [web_result, web_result]\<rparr>) = Some web_plan"
    "steps web_plan \<noteq> []"
    "length (steps web_plan) < 2 ^ 53"
    "length (steps web_plan) <
       length (step_results (completed_deployment\<lparr>step_results := [web_result, web_result]\<rparr>))"
    by (simp_all add: pending_deployment_def completed_deployment_def web_plan_def)
  have v: "progress_percentage completed_deployment = 100"
    "progress_percentage (completed_deployment\<lparr>step_results := [web_result, web_result]\<rparr>) = 200"
    by code_simp+
  have a: "progress_percentage pending_deployment = 0"
    using C10_progress_percentage [of pending_deployment] h(1) by blast
  have b: "100 < progress_percentage (completed_deployment\<lparr>step_results := [web_result, web_result]\<rparr>)"
    using C10_progress_percentage [of "completed_deployment\<lparr>step_results := [web_result, web_result]\<rparr>"]
      h(3,4,5,6) by blast
  show ?thesis using h a b v by blast
qed

end
